theory Spec2Isabelle
  imports Main
begin

section \<open>Credential bundle\<close>

text \<open>
  The global \<open>config\<close> object of \<open>googleAdsQueryTool.ts\<close> and \<open>clickViewFeb2025.ts\<close>.
  Every field is initialised with \<open>process.env.X || ""\<close>, so each one always holds a
  string; the empty string is the only falsy value a field can take.
\<close>

record GoogleAdsConfig =
  developer_token :: string
  client_id :: string
  client_secret :: string
  refresh_token :: string
  customer_id :: string
  login_customer_id :: string

section \<open>Authorization code capture listener\<close>

text \<open>
  The first statement of the \<open>"request"\<close> handler is
  \<open>new URL(req.url, `http://localhost:${port}`)\<close>. The constructor throws a
  \<open>TypeError\<close> (\<open>ERR_INVALID_URL\<close>) for a request target that it cannot parse
  against that base, as for the targets \<open>//\<close> and \<open>//?code=X\<close>, where the host after
  the two slashes is empty; or it yields a URL, of which the handler reads only
  \<open>searchParams\<close>. A request is represented by that outcome: \<open>InvalidURL\<close>, or
  \<open>URL ps\<close> with the \<open>URLSearchParams\<close> of the URL, the decoded name/value pairs of
  the query string in order. \<open>searchParams.get(name)\<close> returns the value of the first
  pair with that name, or \<open>null\<close>.
\<close>

type_synonym searchParams = "(string \<times> string) list"

datatype request = InvalidURL | URL searchParams

definition searchParams_get :: "searchParams \<Rightarrow> string \<Rightarrow> string option" where
  "searchParams_get ps name = map_of ps name"

text \<open>The two static HTML pages the handler can send.\<close>

datatype page = AuthenticationSuccessful | AuthenticationFailed

record response =
  statusCode :: nat
  contentType :: string
  body :: page

text \<open>
  The objects one run of \<open>generateAuthUrl\<close> creates: the HTTP server (is it bound to
  the port, and the due times in ms of its pending \<open>setTimeout(() => server.close(), 1000)\<close>
  callbacks), the promise \<open>authCodePromise\<close> (\<open>None\<close> while pending, \<open>Some code\<close> once
  resolved) and the responses written so far.
\<close>

record capture =
  listening :: bool
  closeTimers :: "nat list"
  authCode :: "string option"
  responses :: "response list"

definition respond :: "nat \<Rightarrow> page \<Rightarrow> capture \<Rightarrow> capture" where
  "respond st pg c =
     c\<lparr>responses := responses c @ [\<lparr>statusCode = st, contentType = ''text/html'', body = pg\<rparr>]\<rparr>"

text \<open>Resolving a promise that is already settled has no effect.\<close>

definition resolveAuthCodePromise :: "string \<Rightarrow> capture \<Rightarrow> capture" where
  "resolveAuthCodePromise code c =
     (case authCode c of None \<Rightarrow> c\<lparr>authCode := Some code\<rparr> | Some _ \<Rightarrow> c)"

definition setTimeout_close :: "nat \<Rightarrow> capture \<Rightarrow> capture" where
  "setTimeout_close due c = c\<lparr>closeTimers := closeTimers c @ [due]\<rparr>"

text \<open>
  An error that no \<open>try\<close> sees ends the process: the \<open>"error"\<close> event of a server that
  cannot bind its port, for which no listener is registered, and an exception thrown
  inside the \<open>"request"\<close> handler, which runs from the event loop.
\<close>

datatype fault = EADDRINUSE nat | ERR_INVALID_URL

text \<open>
  The \<open>"request"\<close> handler, run at clock time \<open>now\<close>. When \<open>new URL\<close> throws, nothing
  is written to the response and the exception leaves the handler. \<open>if (code)\<close> is
  JavaScript truthiness on \<open>string | null\<close>: false for \<open>null\<close> and for the empty
  string.
\<close>

definition onRequest :: "nat \<Rightarrow> request \<Rightarrow> capture \<Rightarrow> fault + capture" where
  "onRequest now req c =
     (case req of
        InvalidURL \<Rightarrow> Inl ERR_INVALID_URL
      | URL query \<Rightarrow>
          (case searchParams_get query ''code'' of
             None \<Rightarrow> Inr (respond 400 AuthenticationFailed c)
           | Some code \<Rightarrow>
               if code \<noteq> []
               then Inr (setTimeout_close (now + 1000)
                      (resolveAuthCodePromise code (respond 200 AuthenticationSuccessful c)))
               else Inr (respond 400 AuthenticationFailed c)))"

text \<open>
  A sequence of requests, each with the time (ms) elapsed since the previous one, up to
  the first one that ends the process.
\<close>

fun onRequests :: "nat \<Rightarrow> (nat \<times> request) list \<Rightarrow> capture \<Rightarrow> fault + capture" where
  "onRequests now [] c = Inr c"
| "onRequests now ((d, rq) # rs) c =
     (case onRequest (now + d) rq c of
        Inl f \<Rightarrow> Inl f
      | Inr c' \<Rightarrow> onRequests (now + d) rs c')"

section \<open>Printing numbers\<close>

text \<open>\<open>String(n)\<close> and \<open>`${n}`\<close> for integers: decimal digits, a minus sign if negative.\<close>

definition digit_char :: "nat \<Rightarrow> char" where
  "digit_char n = char_of (48 + n)"

function toString_nat :: "nat \<Rightarrow> string" where
  "toString_nat n =
     (if n < 10 then [digit_char n] else toString_nat (n div 10) @ [digit_char (n mod 10)])"
  by pat_completeness auto
termination
  by (relation "measure id") auto

declare toString_nat.simps [simp del]

definition toString_int :: "int \<Rightarrow> string" where
  "toString_int i = (if 0 \<le> i then toString_nat (nat i) else CHR ''-'' # toString_nat (nat (- i)))"

text \<open>\<open>padStart\<close> with a pad string of one character.\<close>

definition padStart :: "nat \<Rightarrow> char \<Rightarrow> string \<Rightarrow> string" where
  "padStart n c s = replicate (n - length s) c @ s"

section \<open>Authorization URL\<close>

text \<open>
  \<open>OAuth2Client\<close> and its \<open>generateAuthUrl\<close> belong to google-auth-library. The
  method fills in \<open>response_type\<close>, \<open>client_id\<close> and \<open>redirect_uri\<close> from the client
  where the options leave them out, joins an array of scopes with a space and appends the
  options as a query string to the authorization endpoint. The URL is kept structured
  (endpoint and parameters in order) instead of percent-encoded.
\<close>

record OAuth2Client =
  clientId :: string
  clientSecret :: string
  redirectUri :: string

record GenerateAuthUrlOpts =
  access_type :: string
  scope :: "string list"
  prompt :: string

record auth_url =
  rootUrl :: string
  params :: "(string \<times> string) list"

fun join :: "string \<Rightarrow> string list \<Rightarrow> string" where
  "join sep [] = []"
| "join sep [x] = x"
| "join sep (x # y # ys) = x @ sep @ join sep (y # ys)"

definition OAuth2Client_generateAuthUrl :: "OAuth2Client \<Rightarrow> GenerateAuthUrlOpts \<Rightarrow> auth_url" where
  "OAuth2Client_generateAuthUrl client opts =
     \<lparr>rootUrl = ''https://accounts.google.com/o/oauth2/v2/auth'',
      params = [(''access_type'', access_type opts),
                (''scope'', join '' '' (scope opts)),
                (''prompt'', prompt opts),
                (''response_type'', ''code''),
                (''client_id'', clientId client),
                (''redirect_uri'', redirectUri client)]\<rparr>"

definition port :: nat where
  "port = 8080"

definition scopes :: "string list" where
  "scopes = [''https://www.googleapis.com/auth/adwords'']"

definition localhost_redirect :: string where
  "localhost_redirect = ''http://localhost:'' @ toString_nat port"

text \<open>
  The URL built by \<open>generateAuthUrl\<close> in \<open>googleAdsQueryTool.ts\<close> and, with the same
  text, in \<open>clickViewFeb2025.ts\<close>.
\<close>

definition authorizeUrl :: "GoogleAdsConfig \<Rightarrow> auth_url" where
  "authorizeUrl cfg =
     OAuth2Client_generateAuthUrl
       \<lparr>clientId = client_id cfg, clientSecret = client_secret cfg,
        redirectUri = localhost_redirect\<rparr>
       \<lparr>access_type = ''offline'', scope = scopes, prompt = ''consent''\<rparr>"

text \<open>
  The URL built by \<open>generateAuthUrl\<close> in \<open>archive/googleAdsPlayground.ts\<close>, which has
  no listener: the operator copies the code by hand (out-of-band redirect).
\<close>

definition authorizeUrl_playground :: "GoogleAdsConfig \<Rightarrow> auth_url" where
  "authorizeUrl_playground cfg =
     OAuth2Client_generateAuthUrl
       \<lparr>clientId = client_id cfg, clientSecret = client_secret cfg,
        redirectUri = ''urn:ietf:wg:oauth:2.0:oob''\<rparr>
       \<lparr>access_type = ''offline'', scope = scopes, prompt = ''consent''\<rparr>"

section \<open>The interactive session\<close>

text \<open>
  What the program cannot decide is input: the lines the operator types, each with the
  time in ms the operator takes to answer the prompt; for each run of
  \<open>generateAuthUrl\<close>, the requests that reach the listener (each with the time since the
  previous event), the time the token endpoint takes and how it settles
  \<open>oauth2Client.getToken(authCode)\<close> for the code that arrived: a rejection, or
  tokens with or without a \<open>refresh_token\<close>; and the way each call to the Ads API
  settles.
\<close>

datatype token_response = Rejected string | Tokens "string option"

record attempt =
  redirects :: "(nat \<times> request) list"
  exchange_ms :: nat
  exchange :: token_response

text \<open>A promise of a collaborator settles by rejecting with an error or resolving.\<close>

datatype 'a reply = Rejects string | Resolves 'a

text \<open>A result row is kept as its JSON text.\<close>

type_synonym row = string

record http_response =
  ok :: bool
  status :: nat
  text_body :: string
  json_results :: "string list reply"

record collaborators =
  listAccessibleCustomers_replies :: "string list reply list"
  query_replies :: "row list reply list"
  update_replies :: "string list reply list"
  getAccessToken_replies :: "string option reply list"
  fetch_replies :: "http_response reply list"

text \<open>
  Console output. Only the lines that tell the branches of the program apart are kept;
  tables and JSON dumps are represented by the data they print.
\<close>

datatype message =
    LocalServerStarted nat
  | AuthorizationInstructions auth_url
  | WaitingForAuthentication
  | AuthorizationCodeReceived
  | ObtainedRefreshToken
  | NoRefreshTokenReturned
  | ErrorDuringAuthentication string
  | NeedRefreshToken
  | ConfigurationSaved
  | AuthenticationCompleted
  | FoundAccessibleCustomers "string list"
  | NoAccessibleCustomers
  | ErrorListingAccessibleCustomers string
  | QueryReturned "row list"
  | QueryReturnedNoResults
  | ErrorRunningQuery string
  | UpdatedConversionAction string
  | UpdateReturnedNoResults
  | ErrorUpdatingConversionAction string
  | FoundConversionActions "row list"
  | NoConversionActions
  | ErrorListingConversionActions string
  | CreatedLink string
  | CreateReturnedNoResults
  | ErrorCreatingLink string
  | NoConversionActionId
  | NoProviderId
  | ThankYou
  | InvalidOption

text \<open>
  \<open>server\<close> is the HTTP server and promise of the latest run of \<open>generateAuthUrl\<close>;
  before the first run nothing is bound. \<open>env_file\<close> is the content of \<open>.env\<close> once
  written.
\<close>

record world =
  config :: GoogleAdsConfig
  clock :: nat
  answers :: "(nat \<times> string) list"
  server :: capture
  console :: "message list"
  env_file :: "(string \<times> string) list option"
  api :: collaborators

text \<open>
  A computation returns; or waits for ever for an event that never comes; or throws an
  error, which an enclosing \<open>try\<close> can catch (with the state reached when it was thrown);
  or ends the process with an error no \<open>try\<close> sees, emitted from the event loop.
\<close>

datatype 'a result = Hangs | Crashes fault | Throws string world | Returns 'a

fun andThen :: "'a result \<Rightarrow> ('a \<Rightarrow> 'b result) \<Rightarrow> 'b result" where
  "andThen Hangs k = Hangs"
| "andThen (Crashes e) k = Crashes e"
| "andThen (Throws e w) k = Throws e w"
| "andThen (Returns x) k = k x"

fun tryCatch :: "'a result \<Rightarrow> (string \<Rightarrow> world \<Rightarrow> 'a result) \<Rightarrow> 'a result" where
  "tryCatch (Throws e w) h = h e w"
| "tryCatch r h = r"

text \<open>The value of a computation that returns.\<close>

definition returned :: "'a result \<Rightarrow> 'a option" where
  "returned r = (case r of Returns x \<Rightarrow> Some x | _ \<Rightarrow> None)"

definition console_log :: "message \<Rightarrow> world \<Rightarrow> world" where
  "console_log m w = w\<lparr>console := console w @ [m]\<rparr>"

text \<open>
  Timers due at or before the clock run: \<open>server.close()\<close> unbinds the port; on a server
  that is already closed it does nothing.
\<close>

definition runTimers :: "nat \<Rightarrow> capture \<Rightarrow> capture" where
  "runTimers t c =
     c\<lparr>listening := listening c \<and> filter (\<lambda>due. due \<le> t) (closeTimers c) = [],
       closeTimers := filter (\<lambda>due. t < due) (closeTimers c)\<rparr>"

definition advance :: "nat \<Rightarrow> world \<Rightarrow> world" where
  "advance d w = w\<lparr>clock := clock w + d, server := runTimers (clock w + d) (server w)\<rparr>"

text \<open>\<open>rl.question\<close>: the next line the operator types.\<close>

definition question :: "world \<Rightarrow> (string \<times> world) result" where
  "question w =
     (case answers w of
        [] \<Rightarrow> Hangs
      | (d, a) # rest \<Rightarrow> Returns (a, advance d (w\<lparr>answers := rest\<rparr>)))"

text \<open>\<open>toLowerCase\<close> on the ASCII letters.\<close>

definition toLowerCase_char :: "char \<Rightarrow> char" where
  "toLowerCase_char ch =
     (if (65::nat) \<le> of_char ch \<and> of_char ch \<le> (90::nat)
      then char_of (of_char ch + (32::nat)) else ch)"

definition toLowerCase :: "string \<Rightarrow> string" where
  "toLowerCase s = map toLowerCase_char s"

definition yes :: "string \<Rightarrow> bool" where
  "yes a = (a = ''yes'' \<or> a = ''y'')"

subsection \<open>Obtaining the refresh token\<close>

text \<open>
  \<open>createServer\<close> and \<open>server.listen(port)\<close>: a fresh server, promise and handler. While
  the previous server still holds the port, the new server emits \<open>"error"\<close>
  (\<open>EADDRINUSE\<close>), for which no listener is registered.
\<close>

definition listen :: "world \<Rightarrow> world result" where
  "listen w =
     (if listening (server w) then Crashes (EADDRINUSE port)
      else Returns (w\<lparr>server := \<lparr>listening = True, closeTimers = [], authCode = None,
                                  responses = []\<rparr>\<rparr>))"

text \<open>
  What is printed before the wait: the instructions with the URL and the waiting notice,
  then, from the callback of \<open>listen\<close> once the event loop runs, the start notice.
\<close>

definition announce :: "world \<Rightarrow> world" where
  "announce w =
     console_log (LocalServerStarted port)
       (console_log WaitingForAuthentication
         (console_log (AuthorizationInstructions (authorizeUrl (config w))) w))"


text \<open>
  A request reaches the handler only while the server is bound; an exception of the
  handler ends the process.
\<close>

definition deliver :: "request \<Rightarrow> world \<Rightarrow> world result" where
  "deliver rq w =
     (if listening (server w)
      then (case onRequest (clock w) rq (server w) of
              Inl f \<Rightarrow> Crashes f
            | Inr c \<Rightarrow> Returns (w\<lparr>server := c\<rparr>))
      else Returns w)"

text \<open>
  \<open>await authCodePromise\<close>: continue with the code once the promise is resolved, else
  wait for the next request. Requests that arrive after the promise is resolved are not
  followed.
\<close>

fun awaitAuthCode :: "(nat \<times> request) list \<Rightarrow> world \<Rightarrow> (string \<times> world) result" where
  "awaitAuthCode [] w =
     (case authCode (server w) of Some code \<Rightarrow> Returns (code, w) | None \<Rightarrow> Hangs)"
| "awaitAuthCode ((d, rq) # rest) w =
     (case authCode (server w) of
        Some code \<Rightarrow> Returns (code, w)
      | None \<Rightarrow> andThen (deliver rq (advance d w)) (awaitAuthCode rest))"

text \<open>\<open>"Would you like to try again? (yes/no)"\<close>: the flag says whether to run again.\<close>

definition tryAgain :: "world \<Rightarrow> (bool \<times> world) result" where
  "tryAgain w = andThen (question w) (\<lambda>(retry, w'). Returns (yes (toLowerCase retry), w'))"

definition truthy :: "string option \<Rightarrow> bool" where
  "truthy v = (case v of None \<Rightarrow> False | Some s \<Rightarrow> s \<noteq> [])"

text \<open>
  The exchange step: what \<open>generateAuthUrl\<close> does with the outcome of
  \<open>oauth2Client.getToken(authCode)\<close>. A rejection is the \<open>catch\<close> branch.
\<close>

definition exchangeStep :: "token_response \<Rightarrow> world \<Rightarrow> (bool \<times> world) result" where
  "exchangeStep r w =
     (case r of
        Tokens tok \<Rightarrow>
          if truthy tok
          then Returns (False,
                 console_log ObtainedRefreshToken
                   (w\<lparr>config := (config w)\<lparr>refresh_token := the tok\<rparr>\<rparr>))
          else tryAgain (console_log NoRefreshTokenReturned w)
      | Rejected err \<Rightarrow> tryAgain (console_log (ErrorDuringAuthentication err) w))"

text \<open>
  One pass through the body of \<open>generateAuthUrl\<close>, up to its return or its recursive
  call.
\<close>

definition authorize :: "attempt \<Rightarrow> world \<Rightarrow> (bool \<times> world) result" where
  "authorize a w =
     andThen (listen w) (\<lambda>w1.
     andThen (awaitAuthCode (redirects a) (announce w1))
       (\<lambda>(code, w2).
          exchangeStep (exchange a)
            (advance (exchange_ms a) (console_log AuthorizationCodeReceived w2))))"

text \<open>
  \<open>generateAuthUrl\<close>, one element of the list for each run of its body. With nothing
  left to arrive, the listener is bound and the wait never ends.
\<close>

fun generateAuthUrl :: "attempt list \<Rightarrow> world \<Rightarrow> world result" where
  "generateAuthUrl [] w = andThen (listen w) (\<lambda>w1. Hangs)"
| "generateAuthUrl (a # later) w =
     andThen (authorize a w)
       (\<lambda>(again, w'). if again then generateAuthUrl later w' else Returns w')"

subsection \<open>Interactive setup\<close>

datatype field = Developer_token | Client_id | Client_secret

fun get_field :: "field \<Rightarrow> GoogleAdsConfig \<Rightarrow> string" where
  "get_field Developer_token cfg = developer_token cfg"
| "get_field Client_id cfg = client_id cfg"
| "get_field Client_secret cfg = client_secret cfg"

fun set_field :: "field \<Rightarrow> string \<Rightarrow> GoogleAdsConfig \<Rightarrow> GoogleAdsConfig" where
  "set_field Developer_token v cfg = cfg\<lparr>developer_token := v\<rparr>"
| "set_field Client_id v cfg = cfg\<lparr>client_id := v\<rparr>"
| "set_field Client_secret v cfg = cfg\<lparr>client_secret := v\<rparr>"

definition requiredFields :: "field list" where
  "requiredFields = [Developer_token, Client_id, Client_secret]"

text \<open>The loop over \<open>requiredFields\<close>: an empty field is set to whatever is typed.\<close>

fun promptFields :: "field list \<Rightarrow> world \<Rightarrow> world result" where
  "promptFields [] w = Returns w"
| "promptFields (f # fs) w =
     (if get_field f (config w) = []
      then andThen (question w)
             (\<lambda>(answer, w'). promptFields fs (w'\<lparr>config := set_field f answer (config w')\<rparr>))
      else promptFields fs w)"

definition promptRefreshToken :: "attempt list \<Rightarrow> world \<Rightarrow> world result" where
  "promptRefreshToken atts w =
     (if refresh_token (config w) = []
      then andThen (question (console_log NeedRefreshToken w))
             (\<lambda>(answer, w1).
                if yes (toLowerCase answer) then generateAuthUrl atts w1
                else andThen (question w1)
                       (\<lambda>(token, w2).
                          Returns (w2\<lparr>config := (config w2)\<lparr>refresh_token := token\<rparr>\<rparr>)))
      else Returns w)"

definition promptCustomerId :: "world \<Rightarrow> world result" where
  "promptCustomerId w =
     (if customer_id (config w) = []
      then andThen (question w)
             (\<lambda>(answer, w'). Returns (w'\<lparr>config := (config w')\<lparr>customer_id := answer\<rparr>\<rparr>))
      else Returns w)"

definition promptLoginCustomerId :: "world \<Rightarrow> world result" where
  "promptLoginCustomerId w =
     (if login_customer_id (config w) = []
      then andThen (question w)
             (\<lambda>(useLoginId, w1).
                if yes (toLowerCase useLoginId)
                then andThen (question w1)
                       (\<lambda>(answer, w2).
                          Returns (w2\<lparr>config := (config w2)\<lparr>login_customer_id := answer\<rparr>\<rparr>))
                else Returns w1)
      else Returns w)"

definition envContent :: "GoogleAdsConfig \<Rightarrow> (string \<times> string) list" where
  "envContent cfg =
     [(''GOOGLE_ADS_DEVELOPER_TOKEN'', developer_token cfg),
      (''GOOGLE_ADS_CLIENT_ID'', client_id cfg),
      (''GOOGLE_ADS_CLIENT_SECRET'', client_secret cfg),
      (''GOOGLE_ADS_REFRESH_TOKEN'', refresh_token cfg),
      (''GOOGLE_ADS_CUSTOMER_ID'', customer_id cfg),
      (''GOOGLE_ADS_LOGIN_CUSTOMER_ID'', login_customer_id cfg)]"

definition saveEnv :: "world \<Rightarrow> world" where
  "saveEnv w = console_log ConfigurationSaved (w\<lparr>env_file := Some (envContent (config w))\<rparr>)"

definition promptForMissingConfig :: "attempt list \<Rightarrow> world \<Rightarrow> world result" where
  "promptForMissingConfig atts w =
     andThen (promptFields requiredFields w) (\<lambda>w1.
     andThen (promptRefreshToken atts w1) (\<lambda>w2.
     andThen (promptCustomerId w2) (\<lambda>w3.
     andThen (promptLoginCustomerId w3) (\<lambda>w4.
     Returns (saveEnv w4)))))"


subsection \<open>What the operator supplies\<close>

text \<open>
  Conditions on the input of a setup run, for the statements below. The required fields
  the loop asks for are those empty at the start, in order, and the first lines typed
  answer these prompts. A token response carries a refresh token when the call resolves
  with a non-empty one. A run of the authorization flow stores a refresh token when the
  exchange of some pass returns one and the retry prompt of every earlier pass was
  answered with yes; the answers to these prompts are the next lines typed. The refresh
  token is supplied when it is set already, or typed by hand and not empty, or stored by
  the authorization flow.
\<close>

definition missingFields :: "GoogleAdsConfig \<Rightarrow> field list" where
  "missingFields cfg = filter (\<lambda>f. get_field f cfg = []) requiredFields"

definition hasRefreshToken :: "token_response \<Rightarrow> bool" where
  "hasRefreshToken r = (case r of Rejected err \<Rightarrow> False | Tokens tok \<Rightarrow> truthy tok)"

fun flowStoresToken :: "attempt list \<Rightarrow> (nat \<times> string) list \<Rightarrow> bool" where
  "flowStoresToken [] lines = False"
| "flowStoresToken (a # later) lines =
     (hasRefreshToken (exchange a)
      \<or> (case lines of
            [] \<Rightarrow> False
          | (d, r) # rest \<Rightarrow> yes (toLowerCase r) \<and> flowStoresToken later rest))"

definition typedRefreshToken :: "attempt list \<Rightarrow> (nat \<times> string) list \<Rightarrow> bool" where
  "typedRefreshToken atts lines =
     (case lines of
        [] \<Rightarrow> False
      | (d0, a0) # rest \<Rightarrow>
          if yes (toLowerCase a0) then flowStoresToken atts rest
          else (case rest of [] \<Rightarrow> False | (d1, t) # others \<Rightarrow> t \<noteq> []))"

definition refreshTokenSupplied :: "attempt list \<Rightarrow> GoogleAdsConfig \<Rightarrow> (nat \<times> string) list \<Rightarrow> bool" where
  "refreshTokenSupplied atts cfg lines =
     (refresh_token cfg \<noteq> []
      \<or> typedRefreshToken atts (drop (length (missingFields cfg)) lines))"

section \<open>API operations of the query tool\<close>

text \<open>
  A call to a collaborator takes the next settlement the environment has for it: a
  rejection is thrown at the \<open>await\<close>; with no settlement left the call never returns.
\<close>

definition settle :: "'a reply list \<Rightarrow> ('a reply list \<Rightarrow> world) \<Rightarrow> ('a \<times> world) result" where
  "settle rs put =
     (case rs of
        [] \<Rightarrow> Hangs
      | Rejects e # rest \<Rightarrow> Throws e (put rest)
      | Resolves v # rest \<Rightarrow> Returns (v, put rest))"

definition client_listAccessibleCustomers :: "world \<Rightarrow> (string list \<times> world) result" where
  "client_listAccessibleCustomers w =
     settle (listAccessibleCustomers_replies (api w))
       (\<lambda>rest. w\<lparr>api := (api w)\<lparr>listAccessibleCustomers_replies := rest\<rparr>\<rparr>)"

definition customer_query :: "string \<Rightarrow> world \<Rightarrow> (row list \<times> world) result" where
  "customer_query gaql w =
     settle (query_replies (api w)) (\<lambda>rest. w\<lparr>api := (api w)\<lparr>query_replies := rest\<rparr>\<rparr>)"

definition conversionActions_update :: "string \<Rightarrow> world \<Rightarrow> (string list \<times> world) result" where
  "conversionActions_update resourceName w =
     settle (update_replies (api w)) (\<lambda>rest. w\<lparr>api := (api w)\<lparr>update_replies := rest\<rparr>\<rparr>)"

definition getAccessToken :: "world \<Rightarrow> (string option \<times> world) result" where
  "getAccessToken w =
     settle (getAccessToken_replies (api w))
       (\<lambda>rest. w\<lparr>api := (api w)\<lparr>getAccessToken_replies := rest\<rparr>\<rparr>)"

definition fetch :: "string \<Rightarrow> world \<Rightarrow> (http_response \<times> world) result" where
  "fetch url w =
     settle (fetch_replies (api w)) (\<lambda>rest. w\<lparr>api := (api w)\<lparr>fetch_replies := rest\<rparr>\<rparr>)"

definition listAccessibleCustomers :: "world \<Rightarrow> world result" where
  "listAccessibleCustomers w =
     tryCatch
       (andThen (client_listAccessibleCustomers w)
          (\<lambda>(resource_names, w1).
             if resource_names \<noteq> []
             then Returns (console_log (FoundAccessibleCustomers resource_names) w1)
             else Returns (console_log NoAccessibleCustomers w1)))
       (\<lambda>error w'. Returns (console_log (ErrorListingAccessibleCustomers error) w'))"

definition runGaqlQuery :: "string \<Rightarrow> world \<Rightarrow> world result" where
  "runGaqlQuery gaqlQuery w =
     tryCatch
       (andThen (customer_query gaqlQuery w)
          (\<lambda>(results, w1).
             if results \<noteq> []
             then Returns (console_log (QueryReturned results) w1)
             else Returns (console_log QueryReturnedNoResults w1)))
       (\<lambda>error w'. Returns (console_log (ErrorRunningQuery error) w'))"

definition updateConversionActionStatus :: "string \<Rightarrow> world \<Rightarrow> world result" where
  "updateConversionActionStatus conversionActionId w =
     tryCatch
       (andThen
          (conversionActions_update
             (''customers/'' @ customer_id (config w) @ ''/conversionActions/'' @ conversionActionId) w)
          (\<lambda>(results, w1).
             if results \<noteq> []
             then Returns (console_log (UpdatedConversionAction (hd results)) w1)
             else Returns (console_log UpdateReturnedNoResults w1)))
       (\<lambda>error w'. Returns (console_log (ErrorUpdatingConversionAction error) w'))"

definition conversion_action_query :: string where
  "conversion_action_query =
     ''SELECT conversion_action.id, conversion_action.name, conversion_action.status, ''
     @ ''conversion_action.type FROM conversion_action ORDER BY conversion_action.id''"

definition listConversionActions :: "world \<Rightarrow> world result" where
  "listConversionActions w =
     tryCatch
       (andThen (customer_query conversion_action_query w)
          (\<lambda>(results, w1).
             if results \<noteq> []
             then Returns (console_log (FoundConversionActions results) w1)
             else Returns (console_log NoConversionActions w1)))
       (\<lambda>error w'. Returns (console_log (ErrorListingConversionActions error) w'))"

definition default_provider :: string where
  "default_provider = ''8650286658''"

definition createThirdPartyAppAnalyticsLink :: "string \<Rightarrow> world \<Rightarrow> world result" where
  "createThirdPartyAppAnalyticsLink appAnalyticsProviderId w =
     tryCatch
       (andThen (getAccessToken w)
          (\<lambda>(accessToken, w1).
             if \<not> truthy accessToken then Throws ''Failed to obtain access token'' w1
             else
               andThen
                 (fetch (''https://googleads.google.com/v19/customers/'' @ customer_id (config w1)
                         @ ''/thirdpartyappanalyticslinks:mutate'') w1)
                 (\<lambda>(response, w2).
                    if \<not> ok response
                    then Throws (''API request failed with status ''
                                 @ toString_nat (status response) @ '': ''
                                 @ text_body response) w2
                    else (case json_results response of
                            Rejects e \<Rightarrow> Throws e w2
                          | Resolves results \<Rightarrow>
                              if results \<noteq> []
                              then Returns (console_log (CreatedLink (hd results)) w2)
                              else Returns (console_log CreateReturnedNoResults w2)))))
       (\<lambda>error w'. Returns (console_log (ErrorCreatingLink error) w'))"

subsection \<open>The menu\<close>

text \<open>
  The body of the \<open>switch\<close> for one choice; the flag returned is \<open>exitProgram\<close>.
\<close>

definition menuStep :: "string \<Rightarrow> world \<Rightarrow> (bool \<times> world) result" where
  "menuStep choice w =
     (if choice = ''1'' then
        andThen (listAccessibleCustomers w) (\<lambda>w'. Returns (False, w'))
      else if choice = ''2'' then
        andThen (question w) (\<lambda>(gaqlQuery, w1).
        andThen (runGaqlQuery gaqlQuery w1) (\<lambda>w'. Returns (False, w')))
      else if choice = ''3'' then
        andThen (listConversionActions w) (\<lambda>w'. Returns (False, w'))
      else if choice = ''4'' then
        andThen (listConversionActions w) (\<lambda>w1.
        andThen (question w1) (\<lambda>(conversionActionId, w2).
          if conversionActionId \<noteq> []
          then andThen (updateConversionActionStatus conversionActionId w2)
                 (\<lambda>w'. Returns (False, w'))
          else Returns (False, console_log NoConversionActionId w2)))
      else if choice = ''5'' then
        andThen (question w) (\<lambda>(useDefaultProviderId, w1).
          if yes (toLowerCase useDefaultProviderId)
          then andThen (createThirdPartyAppAnalyticsLink default_provider w1)
                 (\<lambda>w'. Returns (False, w'))
          else
            andThen (question w1) (\<lambda>(providerId, w2).
              if providerId \<noteq> []
              then andThen (createThirdPartyAppAnalyticsLink providerId w2)
                     (\<lambda>w'. Returns (False, w'))
              else andThen
                     (createThirdPartyAppAnalyticsLink default_provider
                        (console_log NoProviderId w2))
                     (\<lambda>w'. Returns (False, w'))))
      else if choice = ''6'' then Returns (True, console_log ThankYou w)
      else Returns (False, console_log InvalidOption w))"

text \<open>\<open>while (!exitProgram)\<close>: read a choice, run it, repeat.\<close>

function mainLoop :: "world \<Rightarrow> world result" where
  "mainLoop w =
     (case question w of
        Hangs \<Rightarrow> Hangs
      | Crashes e \<Rightarrow> Crashes e
      | Throws e w' \<Rightarrow> Throws e w'
      | Returns (choice, w1) \<Rightarrow>
          (case menuStep choice w1 of
             Hangs \<Rightarrow> Hangs
           | Crashes e \<Rightarrow> Crashes e
           | Throws e w' \<Rightarrow> Throws e w'
           | Returns (exitProgram, w2) \<Rightarrow> if exitProgram then Returns w2 else mainLoop w2))"
  by pat_completeness auto

text \<open>\<open>main\<close> of the query tool: setup, then the menu.\<close>

definition main :: "attempt list \<Rightarrow> world \<Rightarrow> world result" where
  "main atts w =
     andThen (promptForMissingConfig atts w) (\<lambda>w1. mainLoop (console_log AuthenticationCompleted w1))"

section \<open>Dates of the click view collector\<close>

text \<open>
  A JavaScript \<open>Date\<close> holds a time value: the milliseconds since 1 January 1970 UTC,
  or \<open>NaN\<close> (an invalid date). What a getter returns is an integer or \<open>NaN\<close>;
  \<open>None\<close> stands for \<open>NaN\<close>. \<open>String(x)\<close> and \<open>`${x}`\<close> print \<open>NaN\<close> as such.
\<close>

type_synonym number = "int option"

definition String :: "number \<Rightarrow> string" where
  "String x = (case x of None \<Rightarrow> ''NaN'' | Some i \<Rightarrow> toString_int i)"

text \<open>
  The calendar of ECMAScript (Day Number and Time within Day, Year Number, Month Number,
  Date Number). \<open>YearFromTime(t)\<close> is the largest year \<open>y\<close> with \<open>TimeFromYear(y) \<le> t\<close>:
  it is one of the three years around the estimate of one year for 365.2425 days.
\<close>

definition msPerDay :: int where
  "msPerDay = 86400000"

definition Day :: "int \<Rightarrow> int" where
  "Day t = t div msPerDay"

definition TimeWithinDay :: "int \<Rightarrow> int" where
  "TimeWithinDay t = t mod msPerDay"

definition DaysInYear :: "int \<Rightarrow> int" where
  "DaysInYear y =
     (if y mod 4 \<noteq> 0 then 365 else if y mod 100 \<noteq> 0 then 366
      else if y mod 400 \<noteq> 0 then 365 else 366)"

definition DayFromYear :: "int \<Rightarrow> int" where
  "DayFromYear y =
     365 * (y - 1970) + (y - 1969) div 4 - (y - 1901) div 100 + (y - 1601) div 400"

definition YearFromDay :: "int \<Rightarrow> int" where
  "YearFromDay d =
     (let y = 1970 + (400 * d) div 146097
      in if DayFromYear (y + 1) \<le> d then y + 1 else if DayFromYear y \<le> d then y else y - 1)"

definition YearFromTime :: "int \<Rightarrow> int" where
  "YearFromTime t = YearFromDay (Day t)"

definition InLeapYear :: "int \<Rightarrow> int" where
  "InLeapYear t = (if DaysInYear (YearFromTime t) = 366 then 1 else 0)"

definition DayWithinYear :: "int \<Rightarrow> int" where
  "DayWithinYear t = Day t - DayFromYear (YearFromTime t)"

definition MonthFromTime :: "int \<Rightarrow> int" where
  "MonthFromTime t =
     (let d = DayWithinYear t; leap = InLeapYear t
      in if d < 31 then 0
         else if d < 59 + leap then 1
         else if d < 90 + leap then 2
         else if d < 120 + leap then 3
         else if d < 151 + leap then 4
         else if d < 181 + leap then 5
         else if d < 212 + leap then 6
         else if d < 243 + leap then 7
         else if d < 273 + leap then 8
         else if d < 304 + leap then 9
         else if d < 334 + leap then 10
         else 11)"

definition DateFromTime :: "int \<Rightarrow> int" where
  "DateFromTime t =
     (let d = DayWithinYear t; leap = InLeapYear t; m = MonthFromTime t
      in if m = 0 then d + 1
         else if m = 1 then d - 30
         else if m = 2 then d - 58 - leap
         else if m = 3 then d - 89 - leap
         else if m = 4 then d - 119 - leap
         else if m = 5 then d - 150 - leap
         else if m = 6 then d - 180 - leap
         else if m = 7 then d - 211 - leap
         else if m = 8 then d - 242 - leap
         else if m = 9 then d - 272 - leap
         else if m = 10 then d - 303 - leap
         else d - 333 - leap)"

text \<open>
  \<open>MakeDay(year, month, date)\<close>: the day number of the first of the month, plus
  \<open>date - 1\<close>, for any integer \<open>date\<close>; \<open>MakeDate\<close>; and \<open>TimeClip\<close>, which turns a
  time outside the range of 100,000,000 days around the epoch into \<open>NaN\<close>.
\<close>

definition DaysBeforeMonth :: "int \<Rightarrow> int \<Rightarrow> int" where
  "DaysBeforeMonth y m =
     (let leap = (if DaysInYear y = 366 then 1 else 0)
      in if m = 0 then 0
         else if m = 1 then 31
         else if m = 2 then 59 + leap
         else if m = 3 then 90 + leap
         else if m = 4 then 120 + leap
         else if m = 5 then 151 + leap
         else if m = 6 then 181 + leap
         else if m = 7 then 212 + leap
         else if m = 8 then 243 + leap
         else if m = 9 then 273 + leap
         else if m = 10 then 304 + leap
         else 334 + leap)"

definition MakeDay :: "int \<Rightarrow> int \<Rightarrow> int \<Rightarrow> int" where
  "MakeDay year month date =
     (let ym = year + month div 12; mn = month mod 12
      in DayFromYear ym + DaysBeforeMonth ym mn + date - 1)"

definition MakeDate :: "int \<Rightarrow> int \<Rightarrow> int" where
  "MakeDate day time = day * msPerDay + time"

definition TimeClip :: "int \<Rightarrow> number" where
  "TimeClip t = (if 8640000000000000 < \<bar>t\<bar> then None else Some t)"

text \<open>
  The getters and \<open>setDate\<close> work in local time. The time zone of the host is input:
  \<open>tz t True\<close> is the offset in ms of local time from UTC at the UTC time \<open>t\<close>, and
  \<open>tz t False\<close> the offset to take for the local time \<open>t\<close> (\<open>LocalTZA\<close>).
\<close>

type_synonym timezone = "int \<Rightarrow> bool \<Rightarrow> int"

definition LocalTime :: "timezone \<Rightarrow> int \<Rightarrow> int" where
  "LocalTime tz t = t + tz t True"

definition UTC :: "timezone \<Rightarrow> int \<Rightarrow> int" where
  "UTC tz t = t - tz t False"

definition getFullYear :: "timezone \<Rightarrow> number \<Rightarrow> number" where
  "getFullYear tz date = map_option (\<lambda>t. YearFromTime (LocalTime tz t)) date"

definition getMonth :: "timezone \<Rightarrow> number \<Rightarrow> number" where
  "getMonth tz date = map_option (\<lambda>t. MonthFromTime (LocalTime tz t)) date"

definition getDate :: "timezone \<Rightarrow> number \<Rightarrow> number" where
  "getDate tz date = map_option (\<lambda>t. DateFromTime (LocalTime tz t)) date"

text \<open>
  \<open>date.setDate(dt)\<close>: the day of the month is replaced, in local time, year, month
  and time of day kept; the result is the new time value of \<open>date\<close>.
\<close>

definition setDate :: "timezone \<Rightarrow> number \<Rightarrow> number \<Rightarrow> number" where
  "setDate tz dt date =
     (case date of
        None \<Rightarrow> None
      | Some tv \<Rightarrow>
          (case dt of
             None \<Rightarrow> None
           | Some n \<Rightarrow>
               (let t = LocalTime tz tv;
                    newDate = MakeDate (MakeDay (YearFromTime t) (MonthFromTime t) n)
                                (TimeWithinDay t)
                in TimeClip (UTC tz newDate))))"

text \<open>The string pushed for a date: year, month and day, the last two padded.\<close>

definition formatDate :: "timezone \<Rightarrow> number \<Rightarrow> string" where
  "formatDate tz date =
     String (getFullYear tz date) @ ''-''
     @ padStart 2 (CHR ''0'') (String (map_option (\<lambda>m. m + 1) (getMonth tz date))) @ ''-''
     @ padStart 2 (CHR ''0'') (String (getDate tz date))"

text \<open>
  The loop of \<open>generateLast90DaysDates\<close>. The clock is read once for \<open>today\<close> and once
  more in every iteration, for \<open>date\<close>: \<open>now i\<close> is the reading of iteration \<open>i\<close>, in
  ms since the epoch. The day of the month set on \<open>date\<close> is that of \<open>today\<close> minus
  \<open>i\<close>.
\<close>

function loop90 :: "timezone \<Rightarrow> (nat \<Rightarrow> int) \<Rightarrow> number \<Rightarrow> nat \<Rightarrow> string list \<Rightarrow> string list" where
  "loop90 tz now today i dates =
     (if i < 90
      then loop90 tz now today (i + 1)
             (dates @ [formatDate tz
                         (setDate tz (map_option (\<lambda>d. d - int i) (getDate tz today))
                            (Some (now i)))])
      else dates)"
  by pat_completeness auto
termination
  by (relation "measure (\<lambda>(tz, now, today, i, dates). 90 - i)") auto

declare loop90.simps [simp del]

definition generateLast90DaysDates :: "timezone \<Rightarrow> int \<Rightarrow> (nat \<Rightarrow> int) \<Rightarrow> string list" where
  "generateLast90DaysDates tz t0 now = loop90 tz now (Some t0) 0 []"

section \<open>Sample sessions\<close>

text \<open>Shorthands for the concrete inputs at which the theorems below are evaluated.\<close>

abbreviation idle_server :: capture where
  "idle_server \<equiv> \<lparr>listening = False, closeTimers = [], authCode = None, responses = []\<rparr>"

abbreviation bound_server :: capture where
  "bound_server \<equiv> \<lparr>listening = True, closeTimers = [], authCode = None, responses = []\<rparr>"

abbreviation no_replies :: collaborators where
  "no_replies \<equiv>
     \<lparr>listAccessibleCustomers_replies = [], query_replies = [], update_replies = [],
      getAccessToken_replies = [], fetch_replies = []\<rparr>"

abbreviation empty_config :: GoogleAdsConfig where
  "empty_config \<equiv>
     \<lparr>developer_token = [], client_id = [], client_secret = [], refresh_token = [],
      customer_id = [], login_customer_id = []\<rparr>"

abbreviation credentials_only :: GoogleAdsConfig where
  "credentials_only \<equiv>
     \<lparr>developer_token = ''dev'', client_id = ''cid'', client_secret = ''sec'',
      refresh_token = [], customer_id = [], login_customer_id = []\<rparr>"

abbreviation complete_config :: GoogleAdsConfig where
  "complete_config \<equiv>
     \<lparr>developer_token = ''dev'', client_id = ''cid'', client_secret = ''sec'',
      refresh_token = ''R1'', customer_id = ''123'', login_customer_id = []\<rparr>"

text \<open>
  A session that starts at clock 0 with nothing bound and nothing printed; and a run of
  the authorization flow in which the provider redirects after 5 seconds with the code
  \<open>ABC123\<close>.
\<close>

abbreviation session :: "GoogleAdsConfig \<Rightarrow> (nat \<times> string) list \<Rightarrow> collaborators \<Rightarrow> world" where
  "session cfg lines replies \<equiv>
     \<lparr>config = cfg, clock = 0, answers = lines, server = idle_server, console = [],
      env_file = None, api = replies\<rparr>"

abbreviation redirected :: "nat \<Rightarrow> token_response \<Rightarrow> attempt" where
  "redirected ms response \<equiv>
     \<lparr>redirects = [(5000, URL [(''code'', ''ABC123'')])], exchange_ms = ms, exchange = response\<rparr>"

text \<open>
  A host whose local time is UTC; and two clock readings, the last millisecond of
  31 January 2025 and the first of 1 February 2025.
\<close>

abbreviation utc :: timezone where
  "utc \<equiv> (\<lambda>t isUTC. 0)"

abbreviation end_of_january :: int where
  "end_of_january \<equiv> 1738367999999"

abbreviation start_of_february :: int where
  "start_of_february \<equiv> 1738368000000"

text \<open>A session in which the listener is bound and waits for the redirect.\<close>

abbreviation waiting :: world where
  "waiting \<equiv>
     \<lparr>config = credentials_only, clock = 0, answers = [], server = bound_server, console = [],
      env_file = None, api = no_replies\<rparr>"

section \<open>Properties of the request handler\<close>

lemma onRequest_settled:
  "authCode c = Some code \<Longrightarrow> onRequest now rq c = Inr c' \<Longrightarrow> authCode c' = Some code"
  by (auto simp: onRequest_def respond_def resolveAuthCodePromise_def setTimeout_close_def
      split: request.splits option.splits if_splits)

lemma onRequests_settled:
  "authCode c = Some code \<Longrightarrow> onRequests now rs c = Inr c' \<Longrightarrow> authCode c' = Some code"
proof (induction rs arbitrary: now c)
  case Nil
  then show ?case by simp
next
  case (Cons r rs)
  obtain d rq where r: "r = (d, rq)" by (cases r)
  from Cons.prems(2) r obtain c1 where c1: "onRequest (now + d) rq c = Inr c1"
    and rest: "onRequests (now + d) rs c1 = Inr c'"
    by (auto split: sum.splits)
  from onRequest_settled [OF Cons.prems(1) c1] have "authCode c1 = Some code" .
  from Cons.IH [OF this rest] show ?case .
qed

lemma onRequest_with_code:
  assumes "searchParams_get q ''code'' = Some code" and "code \<noteq> []"
  shows "onRequest now (URL q) c =
           Inr (setTimeout_close (now + 1000)
                  (resolveAuthCodePromise code (respond 200 AuthenticationSuccessful c)))"
  using assms by (simp add: onRequest_def)

lemma accepted_state:
  "responses (setTimeout_close due (resolveAuthCodePromise code (respond 200 AuthenticationSuccessful c)))
     = responses c @ [\<lparr>statusCode = 200, contentType = ''text/html'',
                       body = AuthenticationSuccessful\<rparr>]"
  "closeTimers (setTimeout_close due (resolveAuthCodePromise code (respond 200 AuthenticationSuccessful c)))
     = closeTimers c @ [due]"
  "listening (setTimeout_close due (resolveAuthCodePromise code (respond 200 AuthenticationSuccessful c)))
     = listening c"
  "authCode c = None \<Longrightarrow>
     authCode (setTimeout_close due (resolveAuthCodePromise code (respond 200 AuthenticationSuccessful c)))
       = Some code"
  "authCode c = Some earlier \<Longrightarrow>
     authCode (setTimeout_close due (resolveAuthCodePromise code (respond 200 AuthenticationSuccessful c)))
       = Some earlier"
  by (simp_all add: respond_def resolveAuthCodePromise_def setTimeout_close_def
      split: option.splits)

lemma onRequest_without_code:
  assumes "searchParams_get q ''code'' = None \<or> searchParams_get q ''code'' = Some []"
  shows "onRequest now (URL q) c =
           Inr (c\<lparr>responses := responses c @ [\<lparr>statusCode = 400, contentType = ''text/html'',
                                                body = AuthenticationFailed\<rparr>]\<rparr>)"
  using assms by (auto simp: onRequest_def respond_def)

text \<open>
  C1 (as amended). A request whose target \<open>new URL\<close> accepts and whose first \<open>code\<close>
  parameter, the value \<open>searchParams.get\<close> returns, is non-empty is answered with status
  200 and an HTML page, and a \<open>server.close()\<close> is scheduled 1000 ms after the request,
  the listener staying open until then. A pending authorization promise becomes resolved
  with exactly that code, and no later request changes the value; a promise that is
  resolved already keeps its value.
\<close>

theorem C1_code_request_resolves:
  assumes "searchParams_get q ''code'' = Some code" and "code \<noteq> []"
  shows "(\<exists>c'. onRequest now (URL q) c = Inr c'
            \<and> responses c' = responses c @ [\<lparr>statusCode = 200, contentType = ''text/html'',
                                              body = AuthenticationSuccessful\<rparr>]
            \<and> closeTimers c' = closeTimers c @ [now + 1000]
            \<and> listening c' = listening c
            \<and> (authCode c = None \<longrightarrow>
                 authCode c' = Some code
               \<and> (onRequests now later c' = Inr c'' \<longrightarrow> authCode c'' = Some code)))
       \<and> (authCode c0 = Some earlier \<longrightarrow>
            (\<exists>c1. onRequest now (URL q) c0 = Inr c1 \<and> authCode c1 = Some earlier))"
proof -
  let ?c' = "setTimeout_close (now + 1000)
               (resolveAuthCodePromise code (respond 200 AuthenticationSuccessful c))"
  have r: "onRequest now (URL q) c = Inr ?c'"
    using assms by (rule onRequest_with_code)
  have later: "authCode c = None \<Longrightarrow> onRequests now later ?c' = Inr c'' \<Longrightarrow> authCode c'' = Some code"
    using onRequests_settled [of ?c' code now later c''] by (simp add: accepted_state)
  have first: "\<exists>c'. onRequest now (URL q) c = Inr c'
            \<and> responses c' = responses c @ [\<lparr>statusCode = 200, contentType = ''text/html'',
                                              body = AuthenticationSuccessful\<rparr>]
            \<and> closeTimers c' = closeTimers c @ [now + 1000]
            \<and> listening c' = listening c
            \<and> (authCode c = None \<longrightarrow>
                 authCode c' = Some code
               \<and> (onRequests now later c' = Inr c'' \<longrightarrow> authCode c'' = Some code))"
    using r later by (intro exI [of _ ?c']) (simp add: accepted_state)
  have second: "authCode c0 = Some earlier \<longrightarrow>
            (\<exists>c1. onRequest now (URL q) c0 = Inr c1 \<and> authCode c1 = Some earlier)"
    using onRequest_with_code [OF assms, of now c0] by (simp add: accepted_state)
  from first second show ?thesis by blast
qed

text \<open>
  The redirect of the provider, with the code first in the query; a second request with
  another code changes nothing but the responses and timers.
\<close>

theorem C1_code_request_resolves_witness:
  "onRequest 5000 (URL [(''code'', ''ABC123''), (''scope'', ''adwords'')]) bound_server
      = Inr \<lparr>listening = True, closeTimers = [6000], authCode = Some ''ABC123'',
             responses = [\<lparr>statusCode = 200, contentType = ''text/html'',
                           body = AuthenticationSuccessful\<rparr>]\<rparr>
   \<and> onRequests 5000 [(200, URL [(''code'', ''OTHER'')])]
        \<lparr>listening = True, closeTimers = [6000], authCode = Some ''ABC123'',
         responses = [\<lparr>statusCode = 200, contentType = ''text/html'',
                       body = AuthenticationSuccessful\<rparr>]\<rparr>
      = Inr \<lparr>listening = True, closeTimers = [6000, 6200], authCode = Some ''ABC123'',
             responses = [\<lparr>statusCode = 200, contentType = ''text/html'',
                           body = AuthenticationSuccessful\<rparr>,
                          \<lparr>statusCode = 200, contentType = ''text/html'',
                           body = AuthenticationSuccessful\<rparr>]\<rparr>"
proof -
  have g: "searchParams_get [(''code'', ''ABC123''), (''scope'', ''adwords'')] ''code''
             = Some ''ABC123''"
    by (simp add: searchParams_get_def)
  have n: "''ABC123'' \<noteq> []"
    by simp
  from C1_code_request_resolves [OF g n, where now = 5000 and c = bound_server
      and ?c0.0 = "bound_server\<lparr>authCode := Some ''ABC123''\<rparr>" and earlier = "''ABC123''"
      and later = "[(200, URL [(''code'', ''OTHER'')])]"]
  show ?thesis
    by (simp add: searchParams_get_def onRequest_def respond_def resolveAuthCodePromise_def
        setTimeout_close_def)
qed

text \<open>
  As stated, C1 fails. The query \<open>?code=&code=X\<close> contains a non-empty \<open>code\<close>
  parameter, but \<open>searchParams.get\<close> returns the first value, which is empty: the
  answer is 400 and the promise stays pending. And on a target that \<open>new URL\<close> rejects,
  such as \<open>//?code=X\<close>, the handler throws before it answers.
\<close>

theorem C1_first_code_value_counterexample:
  "onRequest 0 (URL [(''code'', []), (''code'', ''X'')]) bound_server
      = Inr \<lparr>listening = True, closeTimers = [], authCode = None,
             responses = [\<lparr>statusCode = 400, contentType = ''text/html'',
                           body = AuthenticationFailed\<rparr>]\<rparr>
   \<and> onRequest 0 InvalidURL bound_server = Inl ERR_INVALID_URL"
  by (simp add: onRequest_def searchParams_get_def respond_def)

text \<open>
  C2 (as amended). A request whose target \<open>new URL\<close> accepts and which has no \<open>code\<close>
  parameter is answered with status 400 and an HTML page and changes nothing else: the
  promise stays as it was, no close is scheduled, the listener stays open. A later
  request with a non-empty first \<open>code\<close> parameter is then answered with 200 and resolves
  the still pending promise with its code.
\<close>

theorem C2_missing_code_rejected:
  assumes "searchParams_get q ''code'' = None"
  shows "onRequest now (URL q) c =
           Inr (c\<lparr>responses := responses c @ [\<lparr>statusCode = 400, contentType = ''text/html'',
                                                body = AuthenticationFailed\<rparr>]\<rparr>)
       \<and> (searchParams_get q' ''code'' = Some code \<and> code \<noteq> [] \<and> authCode c = None \<longrightarrow>
            (\<exists>c2. onRequests now [(0, URL q), (d, URL q')] c = Inr c2
                  \<and> authCode c2 = Some code
                  \<and> listening c2 = listening c
                  \<and> responses c2 =
                      responses c @ [\<lparr>statusCode = 400, contentType = ''text/html'',
                                      body = AuthenticationFailed\<rparr>,
                                     \<lparr>statusCode = 200, contentType = ''text/html'',
                                      body = AuthenticationSuccessful\<rparr>]))"
proof -
  let ?c1 = "c\<lparr>responses := responses c @ [\<lparr>statusCode = 400, contentType = ''text/html'',
                                               body = AuthenticationFailed\<rparr>]\<rparr>"
  have first: "onRequest now (URL q) c = Inr ?c1"
    using assms by (simp add: onRequest_without_code)
  have second: "\<exists>c2. onRequests now [(0, URL q), (d, URL q')] c = Inr c2
                  \<and> authCode c2 = Some code
                  \<and> listening c2 = listening c
                  \<and> responses c2 =
                      responses c @ [\<lparr>statusCode = 400, contentType = ''text/html'',
                                      body = AuthenticationFailed\<rparr>,
                                     \<lparr>statusCode = 200, contentType = ''text/html'',
                                      body = AuthenticationSuccessful\<rparr>]"
    if h: "searchParams_get q' ''code'' = Some code" "code \<noteq> []" "authCode c = None"
  proof -
    have "onRequest (now + d) (URL q') ?c1 =
            Inr (setTimeout_close (now + d + 1000)
                  (resolveAuthCodePromise code (respond 200 AuthenticationSuccessful ?c1)))"
      using h(1,2) by (rule onRequest_with_code)
    then show ?thesis
      using first h(3) by (simp add: accepted_state)
  qed
  from first second show ?thesis by blast
qed

text \<open>
  The provider redirects with \<open>?error=access_denied\<close>, then with a code.
\<close>

theorem C2_missing_code_rejected_witness:
  "onRequest 10 (URL [(''error'', ''access_denied'')]) bound_server
      = Inr \<lparr>listening = True, closeTimers = [], authCode = None,
             responses = [\<lparr>statusCode = 400, contentType = ''text/html'',
                           body = AuthenticationFailed\<rparr>]\<rparr>
   \<and> onRequests 10 [(0, URL [(''error'', ''access_denied'')]), (20, URL [(''code'', ''ABC123'')])]
        bound_server
      = Inr \<lparr>listening = True, closeTimers = [1030], authCode = Some ''ABC123'',
             responses = [\<lparr>statusCode = 400, contentType = ''text/html'',
                           body = AuthenticationFailed\<rparr>,
                          \<lparr>statusCode = 200, contentType = ''text/html'',
                           body = AuthenticationSuccessful\<rparr>]\<rparr>"
  using C2_missing_code_rejected
    [where q = "[(''error'', ''access_denied'')]" and now = 10 and c = bound_server
       and q' = "[(''code'', ''ABC123'')]" and code = "''ABC123''" and d = 20]
  by (simp add: searchParams_get_def onRequest_def respond_def resolveAuthCodePromise_def
      setTimeout_close_def)

text \<open>
  C10 (as amended). A request whose target \<open>new URL\<close> accepts and whose first \<open>code\<close>
  parameter is empty is handled exactly as a request without the parameter: status 400,
  the failure page, the promise untouched.
\<close>

theorem C10_empty_code_rejected:
  assumes "searchParams_get q ''code'' = Some []"
    and "searchParams_get q0 ''code'' = None"
  shows "onRequest now (URL q) c = onRequest now (URL q0) c
       \<and> onRequest now (URL q) c =
           Inr (c\<lparr>responses := responses c @ [\<lparr>statusCode = 400, contentType = ''text/html'',
                                                body = AuthenticationFailed\<rparr>]\<rparr>)"
  using assms by (simp add: onRequest_without_code)

theorem C10_empty_code_rejected_witness:
  "onRequest 7 (URL [(''code'', [])]) bound_server = onRequest 7 (URL []) bound_server
   \<and> onRequest 7 (URL [(''code'', [])]) bound_server
      = Inr \<lparr>listening = True, closeTimers = [], authCode = None,
             responses = [\<lparr>statusCode = 400, contentType = ''text/html'',
                           body = AuthenticationFailed\<rparr>]\<rparr>"
  using C10_empty_code_rejected
    [where q = "[(''code'', [])]" and ?q0.0 = "[]" and now = 7 and c = bound_server]
  by (auto simp: searchParams_get_def)

text \<open>
  As stated, C10 fails. The query \<open>?code=X&code=\<close> contains a \<open>code\<close> parameter that
  is present but empty, yet the first value is \<open>X\<close>: the answer is 200 and the promise
  is resolved. And on a target that \<open>new URL\<close> rejects, such as \<open>//?code=\<close>, the
  handler throws: there is no response.
\<close>

theorem C10_later_empty_code_counterexample:
  "onRequest 0 (URL [(''code'', ''X''), (''code'', [])]) bound_server
      = Inr \<lparr>listening = True, closeTimers = [1000], authCode = Some ''X'',
             responses = [\<lparr>statusCode = 200, contentType = ''text/html'',
                           body = AuthenticationSuccessful\<rparr>]\<rparr>
   \<and> onRequests 0 [(0, InvalidURL)] bound_server = Inl ERR_INVALID_URL"
  by (simp add: onRequest_def searchParams_get_def respond_def resolveAuthCodePromise_def
      setTimeout_close_def)

section \<open>Properties of the session\<close>

lemma console_log_simps [simp]:
  "config (console_log m w) = config w"
  "clock (console_log m w) = clock w"
  "answers (console_log m w) = answers w"
  "server (console_log m w) = server w"
  "env_file (console_log m w) = env_file w"
  "api (console_log m w) = api w"
  "console (console_log m w) = console w @ [m]"
  by (simp_all add: console_log_def)

lemma advance_simps [simp]:
  "config (advance d w) = config w"
  "clock (advance d w) = clock w + d"
  "answers (advance d w) = answers w"
  "server (advance d w) = runTimers (clock w + d) (server w)"
  "env_file (advance d w) = env_file w"
  "api (advance d w) = api w"
  "console (advance d w) = console w"
  by (simp_all add: advance_def)

lemma question_Cons:
  "answers w = (d, a) # rest \<Longrightarrow> question w = Returns (a, advance d (w\<lparr>answers := rest\<rparr>))"
  by (simp add: question_def)

lemma question_Returns:
  "question w = Returns (a, w') \<Longrightarrow>
     \<exists>d rest. answers w = (d, a) # rest \<and> w' = advance d (w\<lparr>answers := rest\<rparr>)"
  by (auto simp: question_def split: list.splits)

lemma andThen_Returns:
  "andThen r k = Returns y \<Longrightarrow> \<exists>x. r = Returns x \<and> k x = Returns y"
  by (cases r) auto

lemma tryAgain_Cons:
  "answers w = (d, r) # rest \<Longrightarrow>
     tryAgain w = Returns (yes (toLowerCase r), advance d (w\<lparr>answers := rest\<rparr>))"
  by (simp add: tryAgain_def question_Cons)

lemma tryAgain_Returns:
  "tryAgain w = Returns (again, w') \<Longrightarrow>
     \<exists>d r rest. answers w = (d, r) # rest \<and> again = yes (toLowerCase r)
                \<and> w' = advance d (w\<lparr>answers := rest\<rparr>)"
  by (auto simp: tryAgain_def dest!: andThen_Returns question_Returns)

lemma awaitAuthCode_resolved:
  "authCode (server w) = Some code \<Longrightarrow> awaitAuthCode rs w = Returns (code, w)"
  by (cases rs) auto

lemma runTimers_no_timers: "closeTimers c = [] \<Longrightarrow> runTimers t c = c"
  by (simp add: runTimers_def)


lemma deliver_no_code:
  assumes "listening (server w)" and "closeTimers (server w) = []"
    and "searchParams_get q ''code'' = None \<or> searchParams_get q ''code'' = Some []"
  shows "deliver (URL q) (advance d w) =
           Returns ((advance d w)\<lparr>server := (server w)\<lparr>responses := responses (server w) @
              [\<lparr>statusCode = 400, contentType = ''text/html'', body = AuthenticationFailed\<rparr>]\<rparr>\<rparr>)"
  using assms by (simp add: deliver_def runTimers_no_timers onRequest_without_code)

lemma deliver_code:
  assumes "listening (server w)" and "closeTimers (server w) = []"
    and "searchParams_get q ''code'' = Some code" and "code \<noteq> []"
  shows "deliver (URL q) (advance d w) =
           Returns ((advance d w)\<lparr>server := setTimeout_close (clock w + d + 1000)
              (resolveAuthCodePromise code (respond 200 AuthenticationSuccessful (server w)))\<rparr>)"
  using assms by (simp add: deliver_def runTimers_no_timers onRequest_with_code)

lemma deliver_invalid:
  "listening (server w) \<Longrightarrow> deliver InvalidURL w = Crashes ERR_INVALID_URL"
  by (simp add: deliver_def onRequest_def)

lemma awaitAuthCode_fresh:
  assumes "awaitAuthCode rs w = Returns (code, w')"
    and "listening (server w)" and "closeTimers (server w) = []" and "authCode (server w) = None"
  shows "listening (server w') \<and> closeTimers (server w') = [clock w' + 1000]
       \<and> authCode (server w') = Some code \<and> config w' = config w \<and> answers w' = answers w
       \<and> env_file w' = env_file w \<and> console w' = console w \<and> api w' = api w"
  using assms
proof (induction rs arbitrary: w)
  case Nil
  then show ?case by simp
next
  case (Cons r rs)
  obtain d rq where r: "r = (d, rq)" by (cases r)
  have lst: "listening (server (advance d w))"
    using Cons.prems by (simp add: runTimers_no_timers)
  from Cons.prems r obtain w1 where dl: "deliver rq (advance d w) = Returns w1"
    and run: "awaitAuthCode rs w1 = Returns (code, w')"
    by (auto dest!: andThen_Returns)
  from dl lst obtain q where rq: "rq = URL q"
    by (cases rq) (simp_all add: deliver_invalid)
  show ?case
  proof (cases "searchParams_get q ''code'' = None \<or> searchParams_get q ''code'' = Some []")
    case True
    from deliver_no_code [OF Cons.prems(2,3) True, of d] dl rq
    have w1: "w1 = (advance d w)\<lparr>server := (server w)\<lparr>responses := responses (server w) @
              [\<lparr>statusCode = 400, contentType = ''text/html'', body = AuthenticationFailed\<rparr>]\<rparr>\<rparr>"
      by simp
    then have "listening (server w1)" "closeTimers (server w1) = []" "authCode (server w1) = None"
      using Cons.prems by simp_all
    from Cons.IH [OF run this] show ?thesis
      by (simp add: w1)
  next
    case False
    then obtain c where c: "searchParams_get q ''code'' = Some c" "c \<noteq> []"
      by auto
    from deliver_code [OF Cons.prems(2,3) c, of d] dl rq
    have w1: "w1 = (advance d w)\<lparr>server := setTimeout_close (clock w + d + 1000)
              (resolveAuthCodePromise c (respond 200 AuthenticationSuccessful (server w)))\<rparr>"
      by simp
    have a1: "authCode (server w1) = Some c"
      using Cons.prems(4) by (simp add: w1 accepted_state)
    then have "awaitAuthCode rs w1 = Returns (c, w1)"
      by (rule awaitAuthCode_resolved)
    with run have eq: "code = c" "w' = w1" by simp_all
    show ?thesis
      using eq a1 Cons.prems by (simp add: w1 accepted_state)
  qed
qed




lemma listen_Returns:
  "listen w = Returns w1 \<Longrightarrow>
     \<not> listening (server w) \<and> listening (server w1) \<and> closeTimers (server w1) = []
     \<and> authCode (server w1) = None \<and> config w1 = config w \<and> answers w1 = answers w
     \<and> clock w1 = clock w"
  by (auto simp: listen_def split: if_splits)





lemma not_yes_no: "\<not> yes (toLowerCase ''no'')"
  by code_simp

lemma digit_char_values:
  "digit_char 0 = CHR ''0''" "digit_char 1 = CHR ''1''" "digit_char 2 = CHR ''2''"
  "digit_char 3 = CHR ''3''" "digit_char 4 = CHR ''4''" "digit_char 5 = CHR ''5''"
  "digit_char 6 = CHR ''6''" "digit_char 7 = CHR ''7''" "digit_char 8 = CHR ''8''"
  "digit_char 9 = CHR ''9''" "digit_char (Suc 0) = CHR ''1''"
  "digit_char (Suc (Suc 0)) = CHR ''2''" "digit_char (Suc (Suc (Suc 0))) = CHR ''3''"
  by code_simp+

lemma port_printed: "toString_nat 8080 = ''8080''"
  by (simp add: toString_nat.simps [of 8080] toString_nat.simps [of 808]
      toString_nat.simps [of 80] toString_nat.simps [of 8] digit_char_values)

text \<open>
  C7 (as amended). The authorization URL of the query tool and of the click view
  collector carries the client id of the configuration, the redirect target
  \<open>http://localhost:8080\<close> (the port the listener binds), the AdWords scope,
  \<open>access_type=offline\<close> and \<open>prompt=consent\<close>. The URL of the archived playground
  carries the same parameters except for the redirect target, which is the out-of-band
  URN: that script has no listener.
\<close>

theorem C7_authorize_url_parameters:
  "map_of (params (authorizeUrl cfg)) ''client_id'' = Some (client_id cfg)
   \<and> map_of (params (authorizeUrl cfg)) ''redirect_uri'' = Some ''http://localhost:8080''
   \<and> port = 8080
   \<and> map_of (params (authorizeUrl cfg)) ''scope'' = Some ''https://www.googleapis.com/auth/adwords''
   \<and> map_of (params (authorizeUrl cfg)) ''access_type'' = Some ''offline''
   \<and> map_of (params (authorizeUrl cfg)) ''prompt'' = Some ''consent''
   \<and> map_of (params (authorizeUrl_playground cfg)) ''client_id'' = Some (client_id cfg)
   \<and> map_of (params (authorizeUrl_playground cfg)) ''redirect_uri'' = Some ''urn:ietf:wg:oauth:2.0:oob''
   \<and> map_of (params (authorizeUrl_playground cfg)) ''scope''
        = Some ''https://www.googleapis.com/auth/adwords''
   \<and> map_of (params (authorizeUrl_playground cfg)) ''access_type'' = Some ''offline''
   \<and> map_of (params (authorizeUrl_playground cfg)) ''prompt'' = Some ''consent''"
  by (simp add: authorizeUrl_def authorizeUrl_playground_def OAuth2Client_generateAuthUrl_def
      localhost_redirect_def port_def scopes_def port_printed)

text \<open>
  As stated, C7 fails for the archived playground: the redirect target of its URL is not
  the local listener.
\<close>

theorem C7_playground_redirect_counterexample:
  "map_of (params (authorizeUrl_playground
      credentials_only)) ''redirect_uri''
   \<noteq> Some ''http://localhost:8080''"
  by (simp add: authorizeUrl_playground_def OAuth2Client_generateAuthUrl_def)

lemma get_set_field:
  "get_field f (set_field f v cfg) = v"
  "f \<noteq> g \<Longrightarrow> get_field g (set_field f v cfg) = get_field g cfg"
  "refresh_token (set_field f v cfg) = refresh_token cfg"
  by (cases f; cases g; simp)+

lemma promptCustomerId_frame:
  assumes "promptCustomerId w = Returns w'"
  shows "developer_token (config w') = developer_token (config w)
       \<and> client_id (config w') = client_id (config w)
       \<and> client_secret (config w') = client_secret (config w)
       \<and> refresh_token (config w') = refresh_token (config w)"
  using assms
  by (auto simp: promptCustomerId_def split: if_splits dest!: andThen_Returns question_Returns)

lemma promptLoginCustomerId_frame:
  assumes "promptLoginCustomerId w = Returns w'"
  shows "developer_token (config w') = developer_token (config w)
       \<and> client_id (config w') = client_id (config w)
       \<and> client_secret (config w') = client_secret (config w)
       \<and> refresh_token (config w') = refresh_token (config w)"
  using assms
  by (auto simp: promptLoginCustomerId_def split: if_splits dest!: andThen_Returns question_Returns)


lemma exchangeStep_cases:
  assumes "exchangeStep r w = Returns (again, w')"
  shows "(hasRefreshToken r \<and> \<not> again \<and> answers w' = answers w
            \<and> (\<exists>t. t \<noteq> [] \<and> config w' = (config w)\<lparr>refresh_token := t\<rparr>))
       \<or> (\<not> hasRefreshToken r \<and> config w' = config w \<and> env_file w' = env_file w
            \<and> (\<exists>d a rest. answers w = (d, a) # rest \<and> again = yes (toLowerCase a)
                  \<and> answers w' = rest))"
  using assms
  by (auto simp: exchangeStep_def hasRefreshToken_def truthy_def
      split: token_response.splits if_splits option.splits dest!: tryAgain_Returns)

lemma authorize_exchange:
  assumes "authorize a w = Returns (again, w')"
  shows "\<exists>w3. config w3 = config w \<and> answers w3 = answers w \<and> env_file w3 = env_file w
             \<and> exchangeStep (exchange a) w3 = Returns (again, w')"
proof -
  from assms obtain w1 where l: "listen w = Returns w1"
    and rest1: "andThen (awaitAuthCode (redirects a) (announce w1))
       (\<lambda>(code, w2).
          exchangeStep (exchange a)
            (advance (exchange_ms a) (console_log AuthorizationCodeReceived w2)))
       = Returns (again, w')"
    unfolding authorize_def by (blast dest: andThen_Returns)
  from rest1 obtain code w2 where aw: "awaitAuthCode (redirects a) (announce w1) = Returns (code, w2)"
    and ex: "exchangeStep (exchange a)
            (advance (exchange_ms a) (console_log AuthorizationCodeReceived w2)) = Returns (again, w')"
    by (auto dest!: andThen_Returns)
  note L = listen_Returns [OF l]
  have fresh: "listening (server (announce w1))" "closeTimers (server (announce w1)) = []"
    "authCode (server (announce w1)) = None"
    using L by (simp_all add: announce_def)
  note A = awaitAuthCode_fresh [OF aw fresh]
  have "env_file w1 = env_file w"
    using l by (auto simp: listen_def split: if_splits)
  then show ?thesis
    using ex A L
    by (intro exI [of _ "advance (exchange_ms a) (console_log AuthorizationCodeReceived w2)"])
      (simp add: announce_def)
qed

text \<open>
  C4 (as amended). When the token response has no refresh token (absent or empty), the
  exchange step reports it and asks whether to try again; it leaves the configuration
  and the saved \<open>.env\<close> content exactly as they were. So does the whole pass through
  \<open>generateAuthUrl\<close>, which then runs its body again when the operator answered yes and
  returns to its caller otherwise. A refresh token typed by hand is not asked for: when
  the retry is declined, the refresh-token step of the setup ends there, the token still
  empty.
\<close>

theorem C4_no_refresh_token_keeps_config:
  assumes "\<not> truthy tok" and "answers w = (d, r) # rest"
  shows "(\<exists>w'. exchangeStep (Tokens tok) w = Returns (yes (toLowerCase r), w')
            \<and> config w' = config w \<and> env_file w' = env_file w
            \<and> console w' = console w @ [NoRefreshTokenReturned] \<and> answers w' = rest)
       \<and> (exchange a = Tokens tok \<and> authorize a v = Returns (again, v') \<longrightarrow>
            config v' = config v \<and> env_file v' = env_file v
          \<and> (\<exists>d' r' rest'. answers v = (d', r') # rest' \<and> again = yes (toLowerCase r')
                \<and> answers v' = rest')
          \<and> generateAuthUrl (a # later) v
               = (if again then generateAuthUrl later v' else Returns v'))
       \<and> (exchange b = Tokens tok \<and> refresh_token (config u) = []
            \<and> answers u = (d0, a0) # lines \<and> yes (toLowerCase a0)
            \<and> authorize b (advance d0 ((console_log NeedRefreshToken u)\<lparr>answers := lines\<rparr>))
                = Returns (False, u') \<longrightarrow>
            promptRefreshToken (b # others) u = Returns u'
          \<and> refresh_token (config u') = []
          \<and> (\<exists>d' r' rest'. lines = (d', r') # rest' \<and> \<not> yes (toLowerCase r')
                \<and> answers u' = rest'))"
proof -
  let ?w' = "advance d ((console_log NoRefreshTokenReturned w)\<lparr>answers := rest\<rparr>)"
  have step: "exchangeStep (Tokens tok) w = Returns (yes (toLowerCase r), ?w')"
    using assms by (simp add: exchangeStep_def tryAgain_Cons)
  have first: "\<exists>w'. exchangeStep (Tokens tok) w = Returns (yes (toLowerCase r), w')
            \<and> config w' = config w \<and> env_file w' = env_file w
            \<and> console w' = console w @ [NoRefreshTokenReturned] \<and> answers w' = rest"
    using step by (intro exI [of _ ?w']) simp
  have pass: "config y' = config y \<and> env_file y' = env_file y
          \<and> (\<exists>d' r' rest'. answers y = (d', r') # rest' \<and> flag = yes (toLowerCase r')
                \<and> answers y' = rest')"
    if h: "exchange x = Tokens tok" "authorize x y = Returns (flag, y')" for x y flag y'
  proof -
    from authorize_exchange [OF h(2)] obtain w3 where
      w3: "config w3 = config y" "answers w3 = answers y" "env_file w3 = env_file y"
      "exchangeStep (exchange x) w3 = Returns (flag, y')"
      by blast
    have "\<not> hasRefreshToken (exchange x)"
      using h(1) assms(1) by (simp add: hasRefreshToken_def)
    with exchangeStep_cases [OF w3(4)] w3(1,2,3) show ?thesis
      by auto
  qed
  have second: "config v' = config v \<and> env_file v' = env_file v
          \<and> (\<exists>d' r' rest'. answers v = (d', r') # rest' \<and> again = yes (toLowerCase r')
                \<and> answers v' = rest')
          \<and> generateAuthUrl (a # later) v
               = (if again then generateAuthUrl later v' else Returns v')"
    if h: "exchange a = Tokens tok" "authorize a v = Returns (again, v')"
    using pass [OF h] h(2) by simp
  have third: "promptRefreshToken (b # others) u = Returns u'
          \<and> refresh_token (config u') = []
          \<and> (\<exists>d' r' rest'. lines = (d', r') # rest' \<and> \<not> yes (toLowerCase r')
                \<and> answers u' = rest')"
    if h: "exchange b = Tokens tok" "refresh_token (config u) = []"
      "answers u = (d0, a0) # lines" "yes (toLowerCase a0)"
      "authorize b (advance d0 ((console_log NeedRefreshToken u)\<lparr>answers := lines\<rparr>))
         = Returns (False, u')"
  proof -
    have "promptRefreshToken (b # others) u = Returns u'"
      using h(2,3,4,5) by (simp add: promptRefreshToken_def question_Cons)
    then show ?thesis
      using pass [OF h(1,5)] h(2) by simp
  qed
  from first second third show ?thesis by blast
qed


lemma promptFields_outcome:
  assumes "promptFields fs w = Returns w1" and "distinct fs"
  shows "answers w1 = drop (length (filter (\<lambda>f. get_field f (config w) = []) fs)) (answers w)
       \<and> ((\<forall>f\<in>set fs. get_field f (config w1) \<noteq> [])
            \<longleftrightarrow> (\<forall>x\<in>set (take (length (filter (\<lambda>f. get_field f (config w) = []) fs))
                             (answers w)). snd x \<noteq> []))
       \<and> (\<forall>g. g \<notin> set fs \<longrightarrow> get_field g (config w1) = get_field g (config w))
       \<and> refresh_token (config w1) = refresh_token (config w)"
  using assms
proof (induction fs arbitrary: w)
  case Nil
  then show ?case by simp
next
  case (Cons f fs)
  have d: "distinct fs" "f \<notin> set fs" using Cons.prems(2) by simp_all
  show ?case
  proof (cases "get_field f (config w) = []")
    case False
    with Cons.prems have run: "promptFields fs w = Returns w1" by simp
    note ih = Cons.IH [OF run d(1)]
    have "get_field f (config w1) = get_field f (config w)"
      using ih d(2) by blast
    then show ?thesis
      using ih False by auto
  next
    case True
    with Cons.prems obtain a w' where q: "question w = Returns (a, w')"
      and run: "promptFields fs (w'\<lparr>config := set_field f a (config w')\<rparr>) = Returns w1"
      by (auto dest!: andThen_Returns)
    from question_Returns [OF q] obtain dl rest where
      ans: "answers w = (dl, a) # rest" and w': "w' = advance dl (w\<lparr>answers := rest\<rparr>)"
      by blast
    let ?W = "w'\<lparr>config := set_field f a (config w')\<rparr>"
    have ansW: "answers ?W = rest" using w' by simp
    have cfgW: "config ?W = set_field f a (config w)" using w' by simp
    have same: "filter (\<lambda>g. get_field g (config ?W) = []) fs
                  = filter (\<lambda>g. get_field g (config w) = []) fs"
    proof (rule filter_cong [OF refl])
      fix g assume "g \<in> set fs"
      then have "f \<noteq> g" using d(2) by auto
      then show "(get_field g (config ?W) = []) = (get_field g (config w) = [])"
        using cfgW by (simp add: get_set_field)
    qed
    note ih = Cons.IH [OF run d(1), unfolded same ansW]
    let ?n = "length (filter (\<lambda>g. get_field g (config w) = []) fs)"
    have n: "length (filter (\<lambda>g. get_field g (config w) = []) (f # fs)) = Suc ?n"
      using True by simp
    have f1: "get_field f (config w1) = a"
      using ih d(2) cfgW by (simp add: get_set_field)
    have one: "answers w1 = drop (Suc ?n) (answers w)"
      using ih ans by simp
    have two: "(\<forall>g\<in>set (f # fs). get_field g (config w1) \<noteq> [])
            \<longleftrightarrow> (\<forall>x\<in>set (take (Suc ?n) (answers w)). snd x \<noteq> [])"
      using ih f1 ans by auto
    have three: "\<forall>g. g \<notin> set (f # fs) \<longrightarrow> get_field g (config w1) = get_field g (config w)"
    proof (intro allI impI)
      fix g assume g: "g \<notin> set (f # fs)"
      then have "get_field g (config w1) = get_field g (config ?W)"
        using ih by simp
      also have "\<dots> = get_field g (config w)"
      proof -
        have "f \<noteq> g" using g by auto
        then show ?thesis using cfgW by (simp add: get_set_field)
      qed
      finally show "get_field g (config w1) = get_field g (config w)" .
    qed
    have four: "refresh_token (config w1) = refresh_token (config w)"
      using ih cfgW by (simp add: get_set_field)
    show ?thesis
      unfolding n using one two three four by blast
  qed
qed

lemma generateAuthUrl_outcome:
  assumes "generateAuthUrl atts w = Returns w'"
  shows "developer_token (config w') = developer_token (config w)
       \<and> client_id (config w') = client_id (config w)
       \<and> client_secret (config w') = client_secret (config w)
       \<and> (if flowStoresToken atts (answers w) then refresh_token (config w') \<noteq> []
          else config w' = config w)"
  using assms
proof (induction atts arbitrary: w)
  case Nil
  then show ?case by (auto dest!: andThen_Returns)
next
  case (Cons a later)
  from Cons.prems obtain again w1 where au: "authorize a w = Returns (again, w1)"
    and k: "(if again then generateAuthUrl later w1 else Returns w1) = Returns w'"
    by (auto dest!: andThen_Returns)
  from authorize_exchange [OF au] obtain w3 where w3: "config w3 = config w"
    "answers w3 = answers w" "exchangeStep (exchange a) w3 = Returns (again, w1)"
    by blast
  from exchangeStep_cases [OF w3(3)] show ?case
  proof
    assume "hasRefreshToken (exchange a) \<and> \<not> again \<and> answers w1 = answers w3
            \<and> (\<exists>t. t \<noteq> [] \<and> config w1 = (config w3)\<lparr>refresh_token := t\<rparr>)"
    then show ?thesis using k w3 by auto
  next
    assume "\<not> hasRefreshToken (exchange a) \<and> config w1 = config w3 \<and> env_file w1 = env_file w3
            \<and> (\<exists>d a rest. answers w3 = (d, a) # rest \<and> again = yes (toLowerCase a)
                  \<and> answers w1 = rest)"
    then obtain d r rest where h: "\<not> hasRefreshToken (exchange a)" "config w1 = config w"
      "answers w = (d, r) # rest" "again = yes (toLowerCase r)" "answers w1 = rest"
      using w3 by auto
    show ?thesis
    proof (cases again)
      case True
      with k have "generateAuthUrl later w1 = Returns w'" by simp
      from Cons.IH [OF this] h True show ?thesis by simp
    next
      case False
      with k h show ?thesis by simp
    qed
  qed
qed

lemma promptRefreshToken_outcome:
  assumes "promptRefreshToken atts w = Returns w'"
  shows "developer_token (config w') = developer_token (config w)
       \<and> client_id (config w') = client_id (config w)
       \<and> client_secret (config w') = client_secret (config w)
       \<and> (refresh_token (config w') \<noteq> []
            \<longleftrightarrow> refresh_token (config w) \<noteq> [] \<or> typedRefreshToken atts (answers w))"
proof (cases "refresh_token (config w) = []")
  case False
  with assms show ?thesis by (simp add: promptRefreshToken_def)
next
  case True
  with assms obtain answer w1 where q: "question (console_log NeedRefreshToken w) = Returns (answer, w1)"
    and k: "(if yes (toLowerCase answer) then generateAuthUrl atts w1
                else andThen (question w1)
                       (\<lambda>(token, w2).
                          Returns (w2\<lparr>config := (config w2)\<lparr>refresh_token := token\<rparr>\<rparr>))) = Returns w'"
    by (auto simp: promptRefreshToken_def dest!: andThen_Returns)
  from question_Returns [OF q] obtain d rest where
    ans: "answers w = (d, answer) # rest"
    and w1: "w1 = advance d ((console_log NeedRefreshToken w)\<lparr>answers := rest\<rparr>)"
    by auto
  show ?thesis
  proof (cases "yes (toLowerCase answer)")
    case y: True
    with k have "generateAuthUrl atts w1 = Returns w'" by simp
    from generateAuthUrl_outcome [OF this] w1 ans y True show ?thesis
      by (auto simp: typedRefreshToken_def split: if_splits)
  next
    case n: False
    with k obtain token w2 where q2: "question w1 = Returns (token, w2)"
      and w': "w' = w2\<lparr>config := (config w2)\<lparr>refresh_token := token\<rparr>\<rparr>"
      by (auto dest!: andThen_Returns)
    from question_Returns [OF q2] obtain d2 rest2 where
      ans2: "answers w1 = (d2, token) # rest2" and w2: "w2 = advance d2 (w1\<lparr>answers := rest2\<rparr>)"
      by auto
    have "rest = (d2, token) # rest2" using ans2 w1 by simp
    then show ?thesis
      using w' w2 w1 ans n True by (simp add: typedRefreshToken_def)
  qed
qed

lemma setup_outcome:
  assumes "promptForMissingConfig atts w = Returns w'"
  shows "((developer_token (config w') \<noteq> [] \<and> client_id (config w') \<noteq> []
            \<and> client_secret (config w') \<noteq> [])
           \<longleftrightarrow> (\<forall>x\<in>set (take (length (missingFields (config w))) (answers w)). snd x \<noteq> []))
       \<and> (refresh_token (config w') \<noteq> [] \<longleftrightarrow> refreshTokenSupplied atts (config w) (answers w))"
proof -
  from assms obtain w1 w2 w3 w4 where
    s1: "promptFields requiredFields w = Returns w1"
    and s2: "promptRefreshToken atts w1 = Returns w2"
    and s3: "promptCustomerId w2 = Returns w3"
    and s4: "promptLoginCustomerId w3 = Returns w4"
    and s5: "w' = saveEnv w4"
    unfolding promptForMissingConfig_def by (auto dest!: andThen_Returns)
  have "distinct requiredFields" by (simp add: requiredFields_def)
  note F = promptFields_outcome [OF s1 this, folded missingFields_def]
  note R = promptRefreshToken_outcome [OF s2]
  note C = promptCustomerId_frame [OF s3]
  note L = promptLoginCustomerId_frame [OF s4]
  have fields: "(\<forall>f\<in>set requiredFields. get_field f (config w1) \<noteq> [])
      \<longleftrightarrow> (developer_token (config w1) \<noteq> [] \<and> client_id (config w1) \<noteq> []
           \<and> client_secret (config w1) \<noteq> [])"
    by (auto simp: requiredFields_def)
  have same: "developer_token (config w') = developer_token (config w1)"
    "client_id (config w') = client_id (config w1)"
    "client_secret (config w') = client_secret (config w1)"
    "refresh_token (config w') = refresh_token (config w2)"
    using R C L s5 by (simp_all add: saveEnv_def)
  have first: "(developer_token (config w') \<noteq> [] \<and> client_id (config w') \<noteq> []
            \<and> client_secret (config w') \<noteq> [])
           \<longleftrightarrow> (\<forall>x\<in>set (take (length (missingFields (config w))) (answers w)). snd x \<noteq> [])"
    using F fields same by simp
  have second: "refresh_token (config w') \<noteq> [] \<longleftrightarrow> refreshTokenSupplied atts (config w) (answers w)"
    using F R same by (simp add: refreshTokenSupplied_def)
  from first second show ?thesis by blast
qed

lemma settle_cases:
  "settle [] put = Hangs"
  "settle (Rejects e # rest) put = Throws e (put rest)"
  "settle (Resolves v # rest) put = Returns (v, put rest)"
  by (simp_all add: settle_def)

lemma listAccessibleCustomers_outcome:
  "listAccessibleCustomers w = Hangs
   \<or> (\<exists>w'. listAccessibleCustomers w = Returns w' \<and> answers w' = answers w \<and> config w' = config w)"
  by (auto simp: listAccessibleCustomers_def client_listAccessibleCustomers_def settle_def
      split: list.splits reply.splits)

lemma runGaqlQuery_outcome:
  "runGaqlQuery q w = Hangs
   \<or> (\<exists>w'. runGaqlQuery q w = Returns w' \<and> answers w' = answers w \<and> config w' = config w)"
  by (auto simp: runGaqlQuery_def customer_query_def settle_def split: list.splits reply.splits)

lemma listConversionActions_outcome:
  "listConversionActions w = Hangs
   \<or> (\<exists>w'. listConversionActions w = Returns w' \<and> answers w' = answers w \<and> config w' = config w)"
  by (auto simp: listConversionActions_def customer_query_def settle_def
      split: list.splits reply.splits)

lemma updateConversionActionStatus_outcome:
  "updateConversionActionStatus i w = Hangs
   \<or> (\<exists>w'. updateConversionActionStatus i w = Returns w' \<and> answers w' = answers w
            \<and> config w' = config w)"
  by (auto simp: updateConversionActionStatus_def conversionActions_update_def settle_def
      split: list.splits reply.splits)

lemma createThirdPartyAppAnalyticsLink_outcome:
  "createThirdPartyAppAnalyticsLink p w = Hangs
   \<or> (\<exists>w'. createThirdPartyAppAnalyticsLink p w = Returns w' \<and> answers w' = answers w
            \<and> config w' = config w)"
  by (auto simp: createThirdPartyAppAnalyticsLink_def getAccessToken_def fetch_def settle_def
      split: list.splits reply.splits)

lemma question_outcome:
  "question w = Hangs
   \<or> (\<exists>a w'. question w = Returns (a, w') \<and> length (answers w') < length (answers w)
            \<and> config w' = config w)"
  by (auto simp: question_def split: list.splits)

lemma menuStep_outcome:
  "menuStep c w = Hangs
   \<or> (\<exists>w'. menuStep c w = Returns (c = ''6'', w') \<and> length (answers w') \<le> length (answers w)
            \<and> config w' = config w)"
proof -
  note ops = listAccessibleCustomers_outcome [of w] listConversionActions_outcome [of w]
  consider "c = ''1''" | "c = ''2''" | "c = ''3''" | "c = ''4''" | "c = ''5''" | "c = ''6''"
    | "c \<noteq> ''1'' \<and> c \<noteq> ''2'' \<and> c \<noteq> ''3'' \<and> c \<noteq> ''4'' \<and> c \<noteq> ''5'' \<and> c \<noteq> ''6''"
    by blast
  then show ?thesis
  proof cases
    case 1
    then show ?thesis using ops(1) by (auto simp: menuStep_def)
  next
    case 2
    show ?thesis
    proof (cases "question w")
      case (Returns x)
      obtain q w1 where x: "x = (q, w1)" by (cases x)
      with Returns question_outcome [of w]
      have l: "length (answers w1) < length (answers w)" "config w1 = config w" by auto
      from runGaqlQuery_outcome [of q w1] l Returns x 2 show ?thesis
        by (auto simp: menuStep_def)
    qed (use 2 question_outcome [of w] in \<open>auto simp: menuStep_def\<close>)
  next
    case 3
    then show ?thesis using ops(2) by (auto simp: menuStep_def)
  next
    case 4
    from ops(2) show ?thesis
    proof
      assume "listConversionActions w = Hangs"
      with 4 show ?thesis by (simp add: menuStep_def)
    next
      assume "\<exists>w'. listConversionActions w = Returns w' \<and> answers w' = answers w \<and> config w' = config w"
      then obtain w1 where w1: "listConversionActions w = Returns w1" "answers w1 = answers w"
        "config w1 = config w" by blast
      show ?thesis
      proof (cases "question w1")
        case (Returns x)
        obtain i w2 where x: "x = (i, w2)" by (cases x)
        with Returns question_outcome [of w1] w1
        have l: "length (answers w2) < length (answers w)" "config w2 = config w" by auto
        from updateConversionActionStatus_outcome [of i w2] l Returns x 4 w1 show ?thesis
          by (auto simp: menuStep_def)
      qed (use 4 w1 question_outcome [of w1] in \<open>auto simp: menuStep_def\<close>)
    qed
  next
    case 5
    show ?thesis
    proof (cases "question w")
      case (Returns x)
      obtain u w1 where x: "x = (u, w1)" by (cases x)
      with Returns question_outcome [of w]
      have l: "length (answers w1) < length (answers w)" "config w1 = config w" by auto
      show ?thesis
      proof (cases "yes (toLowerCase u)")
        case True
        from createThirdPartyAppAnalyticsLink_outcome [of default_provider w1] l Returns x 5 True
        show ?thesis by (auto simp: menuStep_def)
      next
        case False
        show ?thesis
        proof (cases "question w1")
          case r2: (Returns y)
          obtain p w2 where y: "y = (p, w2)" by (cases y)
          with r2 question_outcome [of w1] l
          have l2: "length (answers w2) < length (answers w)" "config w2 = config w" by auto
          from createThirdPartyAppAnalyticsLink_outcome [of p w2]
            createThirdPartyAppAnalyticsLink_outcome [of default_provider "console_log NoProviderId w2"]
            l2 Returns x 5 False r2 y
          show ?thesis by (auto simp: menuStep_def)
        qed (use 5 False Returns x question_outcome [of w1] in \<open>auto simp: menuStep_def\<close>)
      qed
    qed (use 5 question_outcome [of w] in \<open>auto simp: menuStep_def\<close>)
  next
    case 6
    then show ?thesis by (simp add: menuStep_def)
  next
    case 7
    then show ?thesis by (simp add: menuStep_def)
  qed
qed

lemma question_shorter:
  "question w = Returns (a, w') \<Longrightarrow> length (answers w') < length (answers w)"
  using question_outcome [of w] by auto

lemma menuStep_not_longer:
  "menuStep c w = Returns (e, w') \<Longrightarrow> length (answers w') \<le> length (answers w)"
  using menuStep_outcome [of c w] by auto

termination mainLoop
  by (relation "measure (\<lambda>w. length (answers w))")
    (auto dest!: question_shorter menuStep_not_longer)

declare mainLoop.simps [simp del]

lemma mainLoop_outcome:
  "mainLoop w = Hangs \<or> (\<exists>w'. mainLoop w = Returns w' \<and> config w' = config w)"
proof (induction w rule: mainLoop.induct)
  case (1 w)
  show ?case
  proof (cases "question w")
    case (Returns x)
    obtain c w1 where x: "x = (c, w1)" by (cases x)
    with Returns question_outcome [of w] have c1: "config w1 = config w" by auto
    from menuStep_outcome [of c w1] show ?thesis
    proof
      assume "menuStep c w1 = Hangs"
      with Returns x show ?thesis by (simp add: mainLoop.simps [of w])
    next
      assume "\<exists>w'. menuStep c w1 = Returns (c = ''6'', w')
                \<and> length (answers w') \<le> length (answers w1) \<and> config w' = config w1"
      then obtain w2 where m: "menuStep c w1 = Returns (c = ''6'', w2)" "config w2 = config w1"
        by blast
      show ?thesis
      proof (cases "c = ''6''")
        case True
        with Returns x m c1 show ?thesis by (simp add: mainLoop.simps [of w])
      next
        case False
        have eq: "mainLoop w = mainLoop w2"
          using Returns x m False by (simp add: mainLoop.simps [of w])
        have m': "menuStep c w1 = Returns (False, w2)"
          using m False by simp
        from "1.IH" [OF Returns x [symmetric] m']
        show ?thesis using eq m c1 by auto
      qed
    qed
  qed (use question_outcome [of w] in \<open>auto simp: mainLoop.simps [of w]\<close>)
qed


text \<open>
  C6 (as amended). The setup asks once for each empty field and stores what is typed,
  without checking it. When it completes, the developer token, client id and client
  secret are all non-empty exactly when every line typed at a prompt for one of them is
  non-empty (the first lines typed, one for each of the three that was empty). The
  refresh token is non-empty exactly when it was supplied: set already, or typed by hand
  and not empty, or stored by the authorization flow, which stores one unless it ends
  with a failed exchange and a declined retry. No operation of the menu changes the
  configuration, so that the fields are as the setup left them at every API call.
\<close>

theorem C6_credentials_after_setup:
  assumes "promptForMissingConfig atts w = Returns w'"
  shows "((developer_token (config w') \<noteq> [] \<and> client_id (config w') \<noteq> []
            \<and> client_secret (config w') \<noteq> [])
           \<longleftrightarrow> (\<forall>x\<in>set (take (length (missingFields (config w))) (answers w)). snd x \<noteq> []))
       \<and> (refresh_token (config w') \<noteq> [] \<longleftrightarrow> refreshTokenSupplied atts (config w) (answers w))
       \<and> (mainLoop v = Returns v' \<longrightarrow> config v' = config v)"
proof -
  have "mainLoop v = Returns v' \<longrightarrow> config v' = config v"
    using mainLoop_outcome [of v] by auto
  with setup_outcome [OF assms] show ?thesis by blast
qed


lemma toLowerCase_samples:
  "toLowerCase ''yes'' = ''yes''" "toLowerCase ''no'' = ''no''" "toLowerCase ''YES'' = ''yes''"
  "toLowerCase ''y'' = ''y''" "toLowerCase ''n'' = ''n''"
  by code_simp+


lemmas session_defs =
  authorize_def listen_def announce_def deliver_def onRequest_def respond_def resolveAuthCodePromise_def
  setTimeout_close_def searchParams_get_def advance_def runTimers_def console_log_def
  question_def tryAgain_def exchangeStep_def truthy_def yes_def returned_def port_def
  toLowerCase_samples promptFields.simps promptRefreshToken_def promptCustomerId_def
  promptLoginCustomerId_def promptForMissingConfig_def saveEnv_def requiredFields_def




text \<open>
  As stated, C2 fails: \<open>GET //\<close> is a request without a \<open>code\<close> parameter, but its
  target is rejected by \<open>new URL\<close>: the handler throws, there is no 400 response, the
  process ends and the listener with it, and the correct redirect that follows is not
  received.
\<close>

theorem C2_invalid_target_counterexample:
  "deliver InvalidURL waiting = Crashes ERR_INVALID_URL
   \<and> awaitAuthCode [(10, InvalidURL), (10, URL [(''code'', ''ABC123'')])] waiting
      = Crashes ERR_INVALID_URL"
  by (simp add: deliver_def onRequest_def advance_def runTimers_def)

lemmas menu_defs =
  menuStep_def listAccessibleCustomers_def runGaqlQuery_def listConversionActions_def
  updateConversionActionStatus_def createThirdPartyAppAnalyticsLink_def
  client_listAccessibleCustomers_def customer_query_def conversionActions_update_def
  getAccessToken_def fetch_def settle_cases main_def


text \<open>
  A response without refresh token. Retry declined: the step returns with the
  configuration unchanged, and so does the refresh-token step of the setup. Retry
  accepted after 700 ms: the flow runs again from the unchanged configuration, and its
  second exchange stores the token.
\<close>

theorem C4_no_refresh_token_keeps_config_witness:
  "map_option fst (returned (exchangeStep (Tokens None)
       (session credentials_only [(300, ''no'')] no_replies))) = Some False
   \<and> map_option (config \<circ> snd) (returned (exchangeStep (Tokens None)
       (session credentials_only [(300, ''no'')] no_replies)))
     = Some credentials_only
   \<and> map_option fst (returned (authorize (redirected 400 (Tokens None))
       (session credentials_only [(700, ''yes'')] no_replies))) = Some True
   \<and> map_option (config \<circ> snd) (returned (authorize (redirected 400 (Tokens None))
       (session credentials_only [(700, ''yes'')] no_replies))) = Some credentials_only
   \<and> map_option (refresh_token \<circ> config) (returned (generateAuthUrl
       [redirected 400 (Tokens None), redirected 200 (Tokens (Some ''R1''))]
       (session credentials_only [(700, ''yes'')] no_replies))) = Some ''R1''
   \<and> map_option config (returned (promptRefreshToken [redirected 400 (Tokens None)]
       (session credentials_only [(2000, ''y''), (300, ''n'')] no_replies)))
     = Some credentials_only"
  (is "?a \<and> ?b \<and> ?c \<and> ?d \<and> ?e \<and> ?f")
proof -
  have h: "\<not> truthy None" by (simp add: truthy_def)
  obtain v' where r: "authorize (redirected 400 (Tokens None))
       (session credentials_only [(700, ''yes'')] no_replies) = Returns (True, v')"
    by (simp add: session_defs)
  have ans: "answers (session credentials_only [(300, ''no'')] no_replies) = (300, ''no'') # []"
    by simp
  obtain u' where r2: "authorize (redirected 400 (Tokens None))
       (advance 2000 ((console_log NeedRefreshToken
          (session credentials_only [(2000, ''y''), (300, ''n'')] no_replies))
          \<lparr>answers := [(300, ''n'')]\<rparr>)) = Returns (False, u')"
    by (simp add: session_defs)
  note T = C4_no_refresh_token_keeps_config [OF h ans, where a = "redirected 400 (Tokens None)"
      and v = "session credentials_only [(700, ''yes'')] no_replies" and again = True and v' = v'
      and later = "[redirected 200 (Tokens (Some ''R1''))]"
      and b = "redirected 400 (Tokens None)"
      and u = "session credentials_only [(2000, ''y''), (300, ''n'')] no_replies"
      and ?d0.0 = 2000 and ?a0.0 = "''y''" and lines = "[(300, ''n'')]" and u' = u'
      and others = "[]"]
  from T obtain w' where "exchangeStep (Tokens None)
       (session credentials_only [(300, ''no'')] no_replies) = Returns (yes (toLowerCase ''no''), w')"
    and "config w' = credentials_only"
    by auto
  then have ab: "?a \<and> ?b"
    by (simp add: returned_def toLowerCase_samples yes_def)
  from T r have cfg: "config v' = credentials_only"
    by simp
  have cd: "?c \<and> ?d" using r cfg by (simp add: returned_def)
  have e: ?e by (simp add: session_defs)
  have y: "yes (toLowerCase ''y'')"
    by (simp add: toLowerCase_samples yes_def)
  from T r2 y have step: "promptRefreshToken [redirected 400 (Tokens None)]
       (session credentials_only [(2000, ''y''), (300, ''n'')] no_replies) = Returns u'"
    and empty: "refresh_token (config u') = []"
    by simp_all
  have "config u' = credentials_only"
    using step empty by (auto simp: session_defs)
  then have f: ?f
    using step by (simp add: returned_def)
  from ab cd e f show ?thesis by blast
qed

text \<open>
  As stated, C4 fails: after the response without refresh token the operator declines
  to try again and types a refresh token. The refresh-token step of the setup has
  returned by then: the token stays empty and the line typed is left for the next
  prompt.
\<close>

theorem C4_no_manual_entry_counterexample:
  "map_option (refresh_token \<circ> config) (returned (promptRefreshToken
      [redirected 400 (Tokens None)]
      (session credentials_only [(2000, ''yes''), (300, ''no''), (50, ''R-manual'')] no_replies)))
     = Some []
   \<and> map_option answers (returned (promptRefreshToken
      [redirected 400 (Tokens None)]
      (session credentials_only [(2000, ''yes''), (300, ''no''), (50, ''R-manual'')] no_replies)))
     = Some [(50, ''R-manual'')]"
  by (simp add: session_defs)




text \<open>
  An empty configuration, every prompt answered, the flow chosen and successful; and a
  menu that is left at once.
\<close>

theorem C6_credentials_after_setup_witness:
  "map_option config (returned (promptForMissingConfig
      [redirected 200 (Tokens (Some ''R1''))]
      (session empty_config
         [(10, ''dev''), (10, ''cid''), (10, ''sec''), (10, ''yes''), (10, ''123''), (10, ''no'')]
         no_replies)))
     = Some complete_config
   \<and> refreshTokenSupplied [redirected 200 (Tokens (Some ''R1''))] empty_config
         [(10, ''dev''), (10, ''cid''), (10, ''sec''), (10, ''yes''), (10, ''123''), (10, ''no'')]
   \<and> map_option config (returned (mainLoop (session complete_config [(10, ''6'')] no_replies)))
     = Some complete_config"
  (is "?a \<and> ?b \<and> ?c")
proof -
  obtain w' where r: "promptForMissingConfig
      [redirected 200 (Tokens (Some ''R1''))]
      (session empty_config
         [(10, ''dev''), (10, ''cid''), (10, ''sec''), (10, ''yes''), (10, ''123''), (10, ''no'')]
         no_replies) = Returns w'"
    and cfg: "customer_id (config w') = ''123''" "login_customer_id (config w') = []"
      "developer_token (config w') = ''dev''" "client_id (config w') = ''cid''"
      "client_secret (config w') = ''sec''" "refresh_token (config w') = ''R1''"
    by (simp add: session_defs)
  obtain v' where m: "mainLoop (session complete_config [(10, ''6'')] no_replies) = Returns v'"
    by (simp add: session_defs menu_defs mainLoop.simps)
  note T = C6_credentials_after_setup [OF r, where
      v = "session complete_config [(10, ''6'')] no_replies" and v' = v']
  from T cfg have b: ?b
    by simp
  from T m have "config v' = complete_config"
    by simp
  then have c: ?c
    using m by (simp add: returned_def)
  have a: ?a
    using r cfg by (simp add: returned_def)
  from a b c show ?thesis by blast
qed

text \<open>
  As stated, C6 fails: the operator presses return at every prompt and declines the
  authorization flow; the setup completes, the menu starts and option 1 calls the API
  while the developer token and the refresh token are empty. And with every prompt
  answered, a rejected exchange and a declined retry leave the refresh token empty.
\<close>

theorem C6_empty_credentials_counterexample:
  "map_option (developer_token \<circ> config) (returned (main []
      (session empty_config [(10, []), (10, []), (10, []), (10, ''no''), (10, []), (10, []), (10, ''no''), (10, ''1''), (10, ''6'')]
        \<lparr>listAccessibleCustomers_replies = [Resolves [''customers/1234567890'']],
         query_replies = [], update_replies = [],
         getAccessToken_replies = [], fetch_replies = []\<rparr>))) = Some []
   \<and> map_option (refresh_token \<circ> config) (returned (main []
      (session empty_config [(10, []), (10, []), (10, []), (10, ''no''), (10, []), (10, []), (10, ''no''), (10, ''1''), (10, ''6'')]
        \<lparr>listAccessibleCustomers_replies = [Resolves [''customers/1234567890'']],
         query_replies = [], update_replies = [],
         getAccessToken_replies = [], fetch_replies = []\<rparr>))) = Some []
   \<and> map_option console (returned (main []
      (session empty_config [(10, []), (10, []), (10, []), (10, ''no''), (10, []), (10, []), (10, ''no''), (10, ''1''), (10, ''6'')]
        \<lparr>listAccessibleCustomers_replies = [Resolves [''customers/1234567890'']],
         query_replies = [], update_replies = [],
         getAccessToken_replies = [], fetch_replies = []\<rparr>)))
     = Some [NeedRefreshToken, ConfigurationSaved, AuthenticationCompleted,
             FoundAccessibleCustomers [''customers/1234567890''], ThankYou]
   \<and> map_option (refresh_token \<circ> config) (returned (promptForMissingConfig
      [redirected 400 (Rejected ''invalid_grant'')]
      (session empty_config
         [(10, ''dev''), (10, ''cid''), (10, ''sec''), (10, ''yes''), (10, ''no''), (10, ''123''),
          (10, ''no'')] no_replies))) = Some []"
  by (simp add: session_defs menu_defs mainLoop.simps)


section \<open>Properties of the date list\<close>

lemma toString_nat_1digit: "n < 10 \<Longrightarrow> toString_nat n = [digit_char n]"
  by (simp add: toString_nat.simps [of n])

lemma toString_nat_2digit:
  "10 \<le> n \<Longrightarrow> n < 100 \<Longrightarrow> toString_nat n = [digit_char (n div 10), digit_char (n mod 10)]"
  by (simp add: toString_nat.simps [of n] toString_nat_1digit)

lemma div_10_10: "(n::nat) div 10 div 10 = n div 100"
proof -
  have "n div 100 = n div (10 * 10)" by simp
  also have "\<dots> = n div 10 div 10" by (rule div_mult2_eq)
  finally show ?thesis by simp
qed

lemma div_10_100: "(n::nat) div 10 div 100 = n div 1000"
proof -
  have "n div 1000 = n div (10 * 100)" by simp
  also have "\<dots> = n div 10 div 100" by (rule div_mult2_eq)
  finally show ?thesis by simp
qed

lemma toString_nat_3digit:
  "100 \<le> n \<Longrightarrow> n < 1000 \<Longrightarrow>
     toString_nat n = [digit_char (n div 100), digit_char (n div 10 mod 10), digit_char (n mod 10)]"
  by (simp add: toString_nat.simps [of n] toString_nat_2digit div_10_10)

lemma toString_nat_4digit:
  "1000 \<le> n \<Longrightarrow> n < 10000 \<Longrightarrow>
     toString_nat n = [digit_char (n div 1000), digit_char (n div 100 mod 10),
                        digit_char (n div 10 mod 10), digit_char (n mod 10)]"
  by (simp add: toString_nat.simps [of n] toString_nat_3digit div_10_10 div_10_100)


text \<open>
  The year computed for a day number is the largest year that starts on or before that
  day.
\<close>

lemma int_div_bounds:
  fixes x k :: int
  assumes "0 < k"
  shows "k * (x div k) \<le> x" and "x < k * (x div k) + k"
proof -
  have "x = k * (x div k) + x mod k" by simp
  moreover have "0 \<le> x mod k" "x mod k < k" using assms by simp_all
  ultimately show "k * (x div k) \<le> x" and "x < k * (x div k) + k" by linarith+
qed

lemma YearFromDay_spec:
  "DayFromYear (YearFromDay d) \<le> d \<and> d < DayFromYear (YearFromDay d + 1)"
proof -
  define q where "q = (400 * d) div 146097"
  have q: "146097 * q \<le> 400 * d" "400 * d < 146097 * q + 146097"
    using int_div_bounds [of 146097 "400 * d"] by (simp_all add: q_def)
  have upper: "d < DayFromYear (1970 + q + 2)"
  proof -
    define A where "A = (q + 3) div 4"
    define B where "B = (q + 71) div 100"
    define C where "C = (q + 371) div 400"
    have "q + 3 < 4 * A + 4" "100 * B \<le> q + 71" "q + 371 < 400 * C + 400"
      using int_div_bounds [of 4 "q + 3"] int_div_bounds [of 100 "q + 71"]
        int_div_bounds [of 400 "q + 371"]
      by (simp_all add: A_def B_def C_def)
    then have "100 * q \<le> 400 * A" "400 * B \<le> 4 * q + 284" "q - 29 < 400 * C"
      by linarith+
    then have "400 * d < 146000 * q + 292000 + 400 * A - 400 * B + 400 * C"
      using q by linarith
    then have "d < 365 * (q + 2) + A - B + C"
      by (simp add: algebra_simps)
    moreover have "DayFromYear (1970 + q + 2) = 365 * (q + 2) + A - B + C"
      by (simp add: DayFromYear_def A_def B_def C_def algebra_simps)
    ultimately show ?thesis by simp
  qed
  have lower: "DayFromYear (1970 + q - 1) \<le> d"
  proof -
    define A where "A = q div 4"
    define B where "B = (q + 68) div 100"
    define C where "C = (q + 368) div 400"
    have "4 * A \<le> q" "q + 68 < 100 * B + 100" "400 * C \<le> q + 368"
      using int_div_bounds [of 4 q] int_div_bounds [of 100 "q + 68"]
        int_div_bounds [of 400 "q + 368"]
      by (simp_all add: A_def B_def C_def)
    then have "400 * A \<le> 100 * q" "4 * q - 128 < 400 * B" "400 * C \<le> q + 368"
      by linarith+
    then have "146000 * q - 146000 + 400 * A - 400 * B + 400 * C \<le> 400 * d"
      using q by linarith
    then have "365 * (q - 1) + A - B + C \<le> d"
      by (simp add: algebra_simps)
    moreover have "DayFromYear (1970 + q - 1) = 365 * (q - 1) + A - B + C"
      by (simp add: DayFromYear_def A_def B_def C_def algebra_simps)
    ultimately show ?thesis by simp
  qed
  let ?y = "1970 + q"
  have y: "YearFromDay d =
      (if DayFromYear (?y + 1) \<le> d then ?y + 1 else if DayFromYear ?y \<le> d then ?y else ?y - 1)"
    by (simp add: YearFromDay_def Let_def q_def)
  have two: "?y + 1 + 1 = 1970 + q + 2" by simp
  consider "DayFromYear (?y + 1) \<le> d"
    | "\<not> DayFromYear (?y + 1) \<le> d" "DayFromYear ?y \<le> d"
    | "\<not> DayFromYear (?y + 1) \<le> d" "\<not> DayFromYear ?y \<le> d"
    by blast
  then show ?thesis
  proof cases
    case 1
    then have "YearFromDay d = ?y + 1" using y by simp
    then show ?thesis using 1 upper two by simp
  next
    case 2
    then have "YearFromDay d = ?y" using y by simp
    then show ?thesis using 2 by simp
  next
    case 3
    then have "YearFromDay d = ?y - 1" using y by simp
    then show ?thesis using 3 lower by simp
  qed
qed

lemma div_next:
  fixes x k :: int
  assumes "0 < k"
  shows "x div k \<le> (x + 1) div k" and "(x + 1) div k \<le> x div k + 1"
proof -
  show "x div k \<le> (x + 1) div k"
    using assms by (intro zdiv_mono1) simp_all
  have "k * ((x + 1) div k) \<le> x + 1" "x < k * (x div k) + k"
    using int_div_bounds [OF assms] by blast+
  then have "k * ((x + 1) div k) < k * (x div k + 1) + 1"
    by (simp add: algebra_simps)
  then have "k * ((x + 1) div k) \<le> k * (x div k + 1)"
    by simp
  then show "(x + 1) div k \<le> x div k + 1"
    using assms by (simp only: mult_le_cancel_left_pos)
qed

lemma DayFromYear_step: "DayFromYear y < DayFromYear (y + 1)"
proof -
  have a: "(y - 1969) div 4 \<le> (y - 1969 + 1) div 4"
    by (rule div_next) simp
  have b: "(y - 1901 + 1) div 100 \<le> (y - 1901) div 100 + 1"
    by (rule div_next) simp
  have c: "(y - 1601) div 400 \<le> (y - 1601 + 1) div 400"
    by (rule div_next) simp
  have "DayFromYear (y + 1) =
      365 * (y - 1970) + 365 + (y - 1969 + 1) div 4 - (y - 1901 + 1) div 100
      + (y - 1601 + 1) div 400"
    by (simp add: DayFromYear_def algebra_simps)
  then show ?thesis
    using a b c by (simp add: DayFromYear_def)
qed

lemma DayFromYear_mono: "y \<le> z \<Longrightarrow> DayFromYear y \<le> DayFromYear z"
proof (induction z rule: int_ge_induct)
  case base
  show ?case by simp
next
  case (step i)
  then show ?case using DayFromYear_step [of i] by simp
qed

lemma YearFromDay_largest: "DayFromYear y \<le> d \<Longrightarrow> y \<le> YearFromDay d"
proof (rule ccontr)
  assume le: "DayFromYear y \<le> d" and "\<not> y \<le> YearFromDay d"
  then have "YearFromDay d + 1 \<le> y" by simp
  from DayFromYear_mono [OF this] le YearFromDay_spec [of d] show False by simp
qed

lemma loop90_eq:
  "i \<le> 90 \<Longrightarrow>
     loop90 tz now today i dates
       = dates @ map (\<lambda>j. formatDate tz
                             (setDate tz (map_option (\<lambda>d. d - int j) (getDate tz today))
                                (Some (now j)))) [i..<90]"
proof (induction tz now today i dates rule: loop90.induct)
  case (1 tz now today i dates)
  let ?entry = "\<lambda>j. formatDate tz
                       (setDate tz (map_option (\<lambda>d. d - int j) (getDate tz today))
                          (Some (now j)))"
  show ?case
  proof (cases "i < 90")
    case True
    then have "loop90 tz now today i dates = loop90 tz now today (i + 1) (dates @ [?entry i])"
      by (simp add: loop90.simps [of tz now today i])
    also have "\<dots> = (dates @ [?entry i]) @ map ?entry [i + 1..<90]"
      using "1.IH" [OF True] True by simp
    finally show ?thesis
      using True by (simp add: upt_conv_Cons)
  next
    case False
    then have "loop90 tz now today i dates = dates"
      by (subst loop90.simps) simp
    with "1.prems" False show ?thesis by simp
  qed
qed

lemma generateLast90DaysDates_nth:
  "length (generateLast90DaysDates tz t0 now) = 90"
  "i < 90 \<Longrightarrow>
     generateLast90DaysDates tz t0 now ! i
       = formatDate tz (setDate tz (map_option (\<lambda>d. d - int i) (getDate tz (Some t0)))
                          (Some (now i)))"
  by (simp_all add: generateLast90DaysDates_def loop90_eq)

lemma Date_Some:
  "getFullYear tz (Some t) = Some (YearFromTime (LocalTime tz t))"
  "getMonth tz (Some t) = Some (MonthFromTime (LocalTime tz t))"
  "getDate tz (Some t) = Some (DateFromTime (LocalTime tz t))"
  "setDate tz (Some n) (Some t) =
     TimeClip (UTC tz (MakeDate (MakeDay (YearFromTime (LocalTime tz t))
                                   (MonthFromTime (LocalTime tz t)) n)
                         (TimeWithinDay (LocalTime tz t))))"
  "formatDate tz (Some t) =
     toString_int (YearFromTime (LocalTime tz t)) @ ''-''
     @ padStart 2 (CHR ''0'') (toString_int (MonthFromTime (LocalTime tz t) + 1)) @ ''-''
     @ padStart 2 (CHR ''0'') (toString_int (DateFromTime (LocalTime tz t)))"
  by (simp_all add: getFullYear_def getMonth_def getDate_def setDate_def formatDate_def
      String_def Let_def)

lemma Date_NaN:
  "setDate tz dt None = None"
  "formatDate tz None = ''NaN-NaN-NaN''"
  by (simp_all add: getFullYear_def getMonth_def getDate_def setDate_def formatDate_def
      String_def padStart_def)

lemmas date_defs =
  Date_Some LocalTime_def UTC_def TimeClip_def MakeDate_def MakeDay_def DaysBeforeMonth_def
  DateFromTime_def MonthFromTime_def DayWithinYear_def InLeapYear_def YearFromTime_def
  YearFromDay_def DayFromYear_def DaysInYear_def TimeWithinDay_def Day_def msPerDay_def
  toString_int_def padStart_def Let_def toString_nat_1digit toString_nat_2digit
  toString_nat_4digit digit_char_values

text \<open>
  C9. The function always returns 90 strings, but they are not always the last 90
  days. \<open>today\<close> is read at the last millisecond of 31 January 2025, and the clock has
  passed midnight when the loop reads it again: the day of the month 31 is then set on
  a date in February, and the list starts with 3 March, 2 March, 1 March, 28 February,
  while today's date is printed \<open>2025-01-31\<close>. With every reading at that last
  millisecond the list starts with today and reaches back over the end of the year.
\<close>

theorem C9_month_end_between_readings:
  "length (generateLast90DaysDates tz t0 now) = 90
   \<and> generateLast90DaysDates utc end_of_january (\<lambda>i. start_of_february) ! 0 = ''2025-03-03''
   \<and> generateLast90DaysDates utc end_of_january (\<lambda>i. start_of_february) ! 1 = ''2025-03-02''
   \<and> generateLast90DaysDates utc end_of_january (\<lambda>i. start_of_february) ! 3 = ''2025-02-28''
   \<and> formatDate utc (Some end_of_january) = ''2025-01-31''
   \<and> generateLast90DaysDates utc end_of_january (\<lambda>i. end_of_january) ! 0 = ''2025-01-31''
   \<and> generateLast90DaysDates utc end_of_january (\<lambda>i. end_of_january) ! 31 = ''2024-12-31''"
proof -
  have a: "generateLast90DaysDates utc end_of_january (\<lambda>i. start_of_february) ! 0 = ''2025-03-03''"
    by (simp add: generateLast90DaysDates_nth date_defs)
  have b: "generateLast90DaysDates utc end_of_january (\<lambda>i. start_of_february) ! 1 = ''2025-03-02''"
    by (simp add: generateLast90DaysDates_nth date_defs)
  have c: "generateLast90DaysDates utc end_of_january (\<lambda>i. start_of_february) ! 3 = ''2025-02-28''"
    by (simp add: generateLast90DaysDates_nth date_defs)
  have d: "formatDate utc (Some end_of_january) = ''2025-01-31''"
    by (simp add: date_defs)
  have e: "generateLast90DaysDates utc end_of_january (\<lambda>i. end_of_january) ! 0 = ''2025-01-31''"
    by (simp add: generateLast90DaysDates_nth date_defs)
  have f: "generateLast90DaysDates utc end_of_january (\<lambda>i. end_of_january) ! 31 = ''2024-12-31''"
    by (simp add: generateLast90DaysDates_nth date_defs)
  from a b c d e f show ?thesis
    by (simp add: generateLast90DaysDates_nth(1))
qed

end
